theory Spec2Isabelle
  imports Main "HOL-Library.AList"
begin

section \<open>Values of the WebSocket layer\<close>

text \<open>
  The model follows \<^verbatim>\<open>bytebot/websocket/events.py\<close> and
  \<^verbatim>\<open>bytebot/websocket/manager.py\<close>. A UUID is its 128-bit number, a
  \<^verbatim>\<open>datetime\<close> a number of seconds, a transport (the FastAPI WebSocket object) an
  opaque handle. JSON values (\<^verbatim>\<open>Dict[str, Any]\<close> payloads) are a datatype.
\<close>

type_synonym uuid = nat
type_synonym datetime = nat
type_synonym conn_id = string
type_synonym ws = nat

datatype json =
    JNull
  | JBool bool
  | JInt int
  | JStr string
  | JList "json list"
  | JDict "(string \<times> json) list"

text \<open>Python truthiness of a JSON value, as \<^verbatim>\<open>if not task_id_str\<close> reads it.\<close>

fun truthy :: "json \<Rightarrow> bool" where
  "truthy JNull = False"
| "truthy (JBool b) = b"
| "truthy (JInt n) = (n \<noteq> 0)"
| "truthy (JStr s) = (s \<noteq> [])"
| "truthy (JList xs) = (xs \<noteq> [])"
| "truthy (JDict kvs) = (kvs \<noteq> [])"

fun type_name :: "json \<Rightarrow> string" where
  "type_name JNull = ''NoneType''"
| "type_name (JBool b) = ''bool''"
| "type_name (JInt n) = ''int''"
| "type_name (JStr s) = ''str''"
| "type_name (JList xs) = ''list''"
| "type_name (JDict kvs) = ''dict''"

text \<open>\<^verbatim>\<open>d.get(k)\<close> on a JSON object: a missing key reads as None.\<close>

definition dict_get :: "(string \<times> json) list \<Rightarrow> string \<Rightarrow> json" where
  "dict_get d k = (case map_of d k of None \<Rightarrow> JNull | Some v \<Rightarrow> v)"

text \<open>
  A Python \<^verbatim>\<open>set\<close> is a duplicate-free list; iteration follows the list. A Python
  \<^verbatim>\<open>dict\<close> is an association list in insertion order, read with \<open>map_of\<close>, written
  with \<open>AList.update\<close> (in place, or appended when the key is new) and \<open>AList.delete\<close>.
\<close>

definition set_add :: "'a \<Rightarrow> 'a list \<Rightarrow> 'a list" where
  "set_add x xs = (if x \<in> set xs then xs else xs @ [x])"

definition set_discard :: "'a \<Rightarrow> 'a list \<Rightarrow> 'a list" where
  "set_discard x xs = removeAll x xs"

definition set_update :: "'a list \<Rightarrow> 'a list \<Rightarrow> 'a list" where
  "set_update ys xs = fold set_add ys xs"

text \<open>
  The library functions the code calls and that are not part of the repository are
  parameters: \<^verbatim>\<open>uuid.UUID(hex)\<close> (None where it raises ValueError), \<^verbatim>\<open>str(uuid)\<close> and
  \<^verbatim>\<open>datetime.isoformat()\<close>.
\<close>

record runtime =
  UUID_parse :: "string \<Rightarrow> uuid option"
  UUID_str :: "uuid \<Rightarrow> string"
  isoformat :: "datetime \<Rightarrow> string"

datatype exn =
    ValueError
  | AttributeError string
  | ValidationError
  | TransportError

fun exn_str :: "exn \<Rightarrow> string" where
  "exn_str ValueError = ''badly formed hexadecimal UUID string''"
| "exn_str (AttributeError s) = s"
| "exn_str ValidationError = ''validation error''"
| "exn_str TransportError = ''transport error''"

subsection \<open>events.py\<close>

datatype WebSocketEventType =
    CONNECT | DISCONNECT
  | TASK_CREATED | TASK_UPDATED | TASK_STARTED | TASK_PAUSED | TASK_RESUMED
  | TASK_COMPLETED | TASK_FAILED | TASK_CANCELLED | TASK_PROGRESS
  | MESSAGE_CREATED | MESSAGE_UPDATED | MESSAGE_PROCESSED | MESSAGE_FAILED
  | SUMMARY_CREATED | SUMMARY_UPDATED | SUMMARY_APPROVED | SUMMARY_ARCHIVED
  | AI_THINKING | AI_TOOL_USE | AI_TOOL_RESULT | AI_RESPONSE
  | SYSTEM_STATUS | ERROR | HEARTBEAT
  | DESKTOP_ACTION | DESKTOP_SCREENSHOT | DESKTOP_STATUS

record WebSocketEvent =
  ev_id :: uuid
  ev_type :: WebSocketEventType
  ev_data :: "(string \<times> json) list"
  ev_timestamp :: datetime
  ev_task_id :: "uuid option"
  ev_user_id :: "string option"
  ev_session_id :: "string option"

text \<open>
  The factories. The event id (\<^verbatim>\<open>uuid4\<close>) and the clock reading
  (\<^verbatim>\<open>datetime.utcnow()\<close>) are arguments; one reading stands for the clock reads of
  one call.
\<close>

definition create_system_event ::
  "uuid \<Rightarrow> datetime \<Rightarrow> WebSocketEventType \<Rightarrow> (string \<times> json) list \<Rightarrow> string option \<Rightarrow>
   string option \<Rightarrow> WebSocketEvent" where
  "create_system_event eid now event_type data uid sid =
     \<lparr>ev_id = eid, ev_type = event_type, ev_data = data, ev_timestamp = now,
      ev_task_id = None, ev_user_id = uid, ev_session_id = sid\<rparr>"

definition create_task_event ::
  "uuid \<Rightarrow> datetime \<Rightarrow> WebSocketEventType \<Rightarrow> uuid \<Rightarrow> (string \<times> json) list \<Rightarrow> string option \<Rightarrow>
   string option \<Rightarrow> WebSocketEvent" where
  "create_task_event eid now event_type task_id data uid sid =
     \<lparr>ev_id = eid, ev_type = event_type, ev_data = data, ev_timestamp = now,
      ev_task_id = Some task_id, ev_user_id = uid, ev_session_id = sid\<rparr>"

definition create_error_event ::
  "uuid \<Rightarrow> datetime \<Rightarrow> string \<Rightarrow> string option \<Rightarrow> uuid option \<Rightarrow> string option \<Rightarrow>
   string option \<Rightarrow> WebSocketEvent" where
  "create_error_event eid now error_message error_code task_id uid sid =
     \<lparr>ev_id = eid, ev_type = ERROR,
      ev_data = (case error_code of
                   None \<Rightarrow> [(''message'', JStr error_message)]
                 | Some code \<Rightarrow>
                     if code \<noteq> [] then [(''message'', JStr error_message), (''code'', JStr code)]
                     else [(''message'', JStr error_message)]),
      ev_timestamp = now, ev_task_id = task_id, ev_user_id = uid, ev_session_id = sid\<rparr>"

definition create_heartbeat_event ::
  "runtime \<Rightarrow> uuid \<Rightarrow> datetime \<Rightarrow> string option \<Rightarrow> string option \<Rightarrow> WebSocketEvent" where
  "create_heartbeat_event rt eid now uid sid =
     \<lparr>ev_id = eid, ev_type = HEARTBEAT,
      ev_data = [(''timestamp'', JStr (isoformat rt now))],
      ev_timestamp = now, ev_task_id = None, ev_user_id = uid, ev_session_id = sid\<rparr>"

record WebSocketMessage =
  msg_type :: string
  msg_data :: "(string \<times> json) list"
  msg_request_id :: "string option"

record WebSocketResponse =
  resp_type :: string
  resp_data :: "(string \<times> json) list"
  resp_success :: bool
  resp_error :: "string option"
  resp_request_id :: "string option"

text \<open>
  \<^verbatim>\<open>WebSocketMessage(**message_data)\<close>: the field declarations of the class checked on
  the raw object. \<^verbatim>\<open>type\<close> is a required string, \<^verbatim>\<open>data\<close> an object (empty when
  absent), \<^verbatim>\<open>request_id\<close> a string or None. None is the validation error.
\<close>

definition validate_data :: "json option \<Rightarrow> (string \<times> json) list option" where
  "validate_data v = (case v of None \<Rightarrow> Some [] | Some (JDict kvs) \<Rightarrow> Some kvs | Some _ \<Rightarrow> None)"

definition validate_request_id :: "json option \<Rightarrow> string option option" where
  "validate_request_id v =
     (case v of None \<Rightarrow> Some None | Some JNull \<Rightarrow> Some None | Some (JStr s) \<Rightarrow> Some (Some s)
      | Some _ \<Rightarrow> None)"

definition WebSocketMessage_init :: "(string \<times> json) list \<Rightarrow> WebSocketMessage option" where
  "WebSocketMessage_init message_data =
     (case map_of message_data ''type'' of
        Some (JStr t) \<Rightarrow>
          (case validate_data (map_of message_data ''data'') of
             None \<Rightarrow> None
           | Some d \<Rightarrow>
               (case validate_request_id (map_of message_data ''request_id'') of
                  None \<Rightarrow> None
                | Some rid \<Rightarrow> Some \<lparr>msg_type = t, msg_data = d, msg_request_id = rid\<rparr>))
      | _ \<Rightarrow> None)"

definition success_response ::
  "string \<Rightarrow> (string \<times> json) list \<Rightarrow> string option \<Rightarrow> WebSocketResponse" where
  "success_response message_type data request_id =
     \<lparr>resp_type = message_type, resp_data = data, resp_success = True, resp_error = None,
      resp_request_id = request_id\<rparr>"

definition error_response :: "string \<Rightarrow> string \<Rightarrow> string option \<Rightarrow> WebSocketResponse" where
  "error_response message_type error_message request_id =
     \<lparr>resp_type = message_type, resp_data = [], resp_success = False,
      resp_error = Some error_message, resp_request_id = request_id\<rparr>"

text \<open>
  \<^verbatim>\<open>error_response\<close> called with the raw \<^verbatim>\<open>message_data.get("request_id")\<close>: the
  response model validates its \<^verbatim>\<open>request_id\<close> field too, and raises when the raw value
  is neither a string nor None.
\<close>

definition error_response_raw :: "string \<Rightarrow> string \<Rightarrow> json option \<Rightarrow> exn + WebSocketResponse" where
  "error_response_raw message_type error_message raw =
     (case validate_request_id raw of
        None \<Rightarrow> Inl ValidationError
      | Some rid \<Rightarrow> Inr (error_response message_type error_message rid))"

section \<open>manager.py\<close>

subsection \<open>The transport and what the manager does to it\<close>

text \<open>
  What the transport does at the time of one call: whether \<^verbatim>\<open>accept\<close>,
  \<^verbatim>\<open>send_text\<close> (with the serialisation before it) and \<^verbatim>\<open>close\<close> raise. Every
  operation returns, next to the new state, the transport calls it made.
\<close>

record transport =
  accept_raises :: "ws \<Rightarrow> bool"
  send_raises :: "ws \<Rightarrow> WebSocketEvent \<Rightarrow> bool"
  close_raises :: "ws \<Rightarrow> bool"

datatype io =
    Accept conn_id
  | Send conn_id WebSocketEvent bool
  | Close conn_id bool

definition send_text :: "transport \<Rightarrow> ws \<Rightarrow> WebSocketEvent \<Rightarrow> exn + unit" where
  "send_text tr w ev = (if send_raises tr w ev then Inl TransportError else Inr ())"

definition ws_close :: "transport \<Rightarrow> ws \<Rightarrow> exn + unit" where
  "ws_close tr w = (if close_raises tr w then Inl TransportError else Inr ())"

subsection \<open>WebSocketConnection\<close>

record WebSocketConnection =
  websocket :: ws
  connection_id :: conn_id
  user_id :: "string option"
  session_id :: "string option"
  connected_at :: datetime
  last_heartbeat :: datetime
  subscribed_tasks :: "uuid list"
  is_active :: bool

definition WebSocketConnection_init ::
  "ws \<Rightarrow> conn_id \<Rightarrow> string option \<Rightarrow> string option \<Rightarrow> datetime \<Rightarrow> WebSocketConnection" where
  "WebSocketConnection_init w cid uid sid now =
     \<lparr>websocket = w, connection_id = cid, user_id = uid, session_id = sid,
      connected_at = now, last_heartbeat = now, subscribed_tasks = [], is_active = True\<rparr>"

text \<open>\<^verbatim>\<open>send_event\<close>: any exception of the send is caught and marks the connection inactive.\<close>

definition send_event ::
  "transport \<Rightarrow> WebSocketConnection \<Rightarrow> WebSocketEvent \<Rightarrow> WebSocketConnection \<times> bool" where
  "send_event tr c ev =
     (case send_text tr (websocket c) ev of
        Inr _ \<Rightarrow> (c, True)
      | Inl e \<Rightarrow> (c\<lparr>is_active := False\<rparr>, False))"

definition subscribe_to_task :: "WebSocketConnection \<Rightarrow> uuid \<Rightarrow> WebSocketConnection" where
  "subscribe_to_task c task_id = c\<lparr>subscribed_tasks := set_add task_id (subscribed_tasks c)\<rparr>"

definition unsubscribe_from_task :: "WebSocketConnection \<Rightarrow> uuid \<Rightarrow> WebSocketConnection" where
  "unsubscribe_from_task c task_id =
     c\<lparr>subscribed_tasks := set_discard task_id (subscribed_tasks c)\<rparr>"

definition update_heartbeat :: "WebSocketConnection \<Rightarrow> datetime \<Rightarrow> WebSocketConnection" where
  "update_heartbeat c now = c\<lparr>last_heartbeat := now\<rparr>"

subsection \<open>WebSocketManager\<close>

record WebSocketManager =
  connections :: "(conn_id \<times> WebSocketConnection) list"
  user_connections :: "(string \<times> conn_id list) list"
  task_subscribers :: "(uuid \<times> conn_id list) list"

definition WebSocketManager_init :: WebSocketManager where
  "WebSocketManager_init = \<lparr>connections = [], user_connections = [], task_subscribers = []\<rparr>"

text \<open>
  A connection object lives in the registry under its key; mutating the object is writing
  the entry back.
\<close>

definition store :: "conn_id \<Rightarrow> WebSocketConnection \<Rightarrow> WebSocketManager \<Rightarrow> WebSocketManager" where
  "store cid c m = m\<lparr>connections := AList.update cid c (connections m)\<rparr>"

text \<open>
  \<^verbatim>\<open>if k not in index: index[k] = set()\<close> followed by \<^verbatim>\<open>index[k].add(cid)\<close>.
\<close>

definition index_add :: "'k \<Rightarrow> conn_id \<Rightarrow> ('k \<times> conn_id list) list \<Rightarrow> ('k \<times> conn_id list) list" where
  "index_add k cid idx =
     AList.update k (set_add cid (case map_of idx k of None \<Rightarrow> [] | Some s \<Rightarrow> s)) idx"

text \<open>
  \<^verbatim>\<open>if k in index: index[k].discard(cid); if not index[k]: del index[k]\<close>.
\<close>

definition index_discard :: "'k \<Rightarrow> conn_id \<Rightarrow> ('k \<times> conn_id list) list \<Rightarrow> ('k \<times> conn_id list) list" where
  "index_discard k cid idx =
     (case map_of idx k of
        None \<Rightarrow> idx
      | Some s \<Rightarrow>
          (if set_discard cid s = [] then AList.delete k idx
           else AList.update k (set_discard cid s) idx))"

definition connect ::
  "runtime \<Rightarrow> transport \<Rightarrow> WebSocketManager \<Rightarrow> ws \<Rightarrow> conn_id \<Rightarrow> string option \<Rightarrow> string option \<Rightarrow>
   datetime \<Rightarrow> uuid \<Rightarrow> exn + (WebSocketManager \<times> io list)" where
  "connect rt tr m w cid uid sid now eid =
     (if accept_raises tr w then Inl TransportError
      else
        let connection = WebSocketConnection_init w cid uid sid now;
            m1 = store cid connection m;
            m2 = (case uid of
                    None \<Rightarrow> m1
                  | Some u \<Rightarrow>
                      if u \<noteq> [] then m1\<lparr>user_connections := index_add u cid (user_connections m1)\<rparr>
                      else m1);
            event = create_system_event eid now CONNECT
                      [(''connection_id'', JStr cid), (''timestamp'', JStr (isoformat rt now))]
                      uid sid;
            (connection', ok) = send_event tr connection event
        in Inr (store cid connection' m2, [Accept cid, Send cid event ok]))"

definition disconnect :: "transport \<Rightarrow> WebSocketManager \<Rightarrow> conn_id \<Rightarrow> WebSocketManager \<times> io list" where
  "disconnect tr m cid =
     (case map_of (connections m) cid of
        None \<Rightarrow> (m, [])
      | Some connection \<Rightarrow>
          let ucs = (case user_id connection of
                       None \<Rightarrow> user_connections m
                     | Some u \<Rightarrow>
                         if u \<noteq> [] then index_discard u cid (user_connections m)
                         else user_connections m);
              tss = fold (\<lambda>task_id idx. index_discard task_id cid idx)
                      (subscribed_tasks connection) (task_subscribers m);
              closes = (if is_active connection
                        then (case ws_close tr (websocket connection) of
                                Inr _ \<Rightarrow> [Close cid True]
                              | Inl e \<Rightarrow> [Close cid False])
                        else [])
          in (\<lparr>connections = AList.delete cid (connections m),
               user_connections = ucs, task_subscribers = tss\<rparr>, closes))"

subsection \<open>Message handlers\<close>

text \<open>
  \<^verbatim>\<open>UUID(task_id_str)\<close>: a string is parsed (ValueError when malformed); any other
  truthy value has no \<^verbatim>\<open>replace\<close> method, which is an AttributeError.
\<close>

definition parse_task_id :: "runtime \<Rightarrow> json \<Rightarrow> exn + uuid" where
  "parse_task_id rt v =
     (case v of
        JStr s \<Rightarrow> (case UUID_parse rt s of Some u \<Rightarrow> Inr u | None \<Rightarrow> Inl ValueError)
      | _ \<Rightarrow> Inl (AttributeError
                 ([CHR 0x27] @ type_name v @ [CHR 0x27] @ '' object has no attribute ''
                  @ [CHR 0x27] @ ''replace'' @ [CHR 0x27])))"

text \<open>
  The handlers receive the connection object; \<open>cid\<close> is the registry key it is stored
  under, where its mutations are written back.
\<close>

definition handle_subscribe_task ::
  "runtime \<Rightarrow> WebSocketManager \<Rightarrow> conn_id \<Rightarrow> WebSocketConnection \<Rightarrow> WebSocketMessage \<Rightarrow>
   exn + (WebSocketManager \<times> WebSocketResponse)" where
  "handle_subscribe_task rt m cid connection message =
     (let task_id_str = dict_get (msg_data message) ''task_id'' in
      if \<not> truthy task_id_str
      then Inr (m, error_response (msg_type message) ''task_id is required''
                     (msg_request_id message))
      else
        (case parse_task_id rt task_id_str of
           Inl ValueError \<Rightarrow>
             Inr (m, error_response (msg_type message) ''Invalid task_id format''
                       (msg_request_id message))
         | Inl e \<Rightarrow> Inl e
         | Inr task_id \<Rightarrow>
             let m1 = store cid (subscribe_to_task connection task_id) m;
                 m2 = m1\<lparr>task_subscribers :=
                          index_add task_id (connection_id connection) (task_subscribers m1)\<rparr>
             in Inr (m2, success_response (msg_type message)
                           [(''task_id'', JStr (UUID_str rt task_id)), (''subscribed'', JBool True)]
                           (msg_request_id message))))"

definition handle_unsubscribe_task ::
  "runtime \<Rightarrow> WebSocketManager \<Rightarrow> conn_id \<Rightarrow> WebSocketConnection \<Rightarrow> WebSocketMessage \<Rightarrow>
   exn + (WebSocketManager \<times> WebSocketResponse)" where
  "handle_unsubscribe_task rt m cid connection message =
     (let task_id_str = dict_get (msg_data message) ''task_id'' in
      if \<not> truthy task_id_str
      then Inr (m, error_response (msg_type message) ''task_id is required''
                     (msg_request_id message))
      else
        (case parse_task_id rt task_id_str of
           Inl ValueError \<Rightarrow>
             Inr (m, error_response (msg_type message) ''Invalid task_id format''
                       (msg_request_id message))
         | Inl e \<Rightarrow> Inl e
         | Inr task_id \<Rightarrow>
             let m1 = store cid (unsubscribe_from_task connection task_id) m;
                 m2 = m1\<lparr>task_subscribers :=
                          index_discard task_id (connection_id connection) (task_subscribers m1)\<rparr>
             in Inr (m2, success_response (msg_type message)
                           [(''task_id'', JStr (UUID_str rt task_id)), (''subscribed'', JBool False)]
                           (msg_request_id message))))"

definition handle_heartbeat ::
  "runtime \<Rightarrow> WebSocketManager \<Rightarrow> conn_id \<Rightarrow> WebSocketConnection \<Rightarrow> WebSocketMessage \<Rightarrow> datetime \<Rightarrow>
   exn + (WebSocketManager \<times> WebSocketResponse)" where
  "handle_heartbeat rt m cid connection message now =
     Inr (store cid (update_heartbeat connection now) m,
          success_response (msg_type message) [(''timestamp'', JStr (isoformat rt now))]
            (msg_request_id message))"

definition opt_json :: "string option \<Rightarrow> json" where
  "opt_json v = (case v of None \<Rightarrow> JNull | Some s \<Rightarrow> JStr s)"

definition handle_get_status ::
  "runtime \<Rightarrow> WebSocketManager \<Rightarrow> conn_id \<Rightarrow> WebSocketConnection \<Rightarrow> WebSocketMessage \<Rightarrow>
   exn + (WebSocketManager \<times> WebSocketResponse)" where
  "handle_get_status rt m cid connection message =
     Inr (m, success_response (msg_type message)
               [(''connection_id'', JStr (connection_id connection)),
                (''user_id'', opt_json (user_id connection)),
                (''session_id'', opt_json (session_id connection)),
                (''connected_at'', JStr (isoformat rt (connected_at connection))),
                (''subscribed_tasks'',
                   JList (map (\<lambda>task_id. JStr (UUID_str rt task_id)) (subscribed_tasks connection))),
                (''total_connections'', JInt (int (length (connections m))))]
               (msg_request_id message))"

text \<open>
  The body of the second \<^verbatim>\<open>try\<close> block of \<^verbatim>\<open>handle_message\<close>: the dispatch on
  the message type.
\<close>

definition dispatch ::
  "runtime \<Rightarrow> WebSocketManager \<Rightarrow> conn_id \<Rightarrow> WebSocketConnection \<Rightarrow> WebSocketMessage \<Rightarrow> datetime \<Rightarrow>
   exn + (WebSocketManager \<times> WebSocketResponse)" where
  "dispatch rt m cid connection message now =
     (if msg_type message = ''subscribe_task''
      then handle_subscribe_task rt m cid connection message
      else if msg_type message = ''unsubscribe_task''
      then handle_unsubscribe_task rt m cid connection message
      else if msg_type message = ''heartbeat''
      then handle_heartbeat rt m cid connection message now
      else if msg_type message = ''get_status''
      then handle_get_status rt m cid connection message
      else Inr (m, error_response (msg_type message)
                     (''Unknown message type: '' @ msg_type message)
                     (msg_request_id message)))"

text \<open>
  \<^verbatim>\<open>handle_message\<close>. \<open>Inl\<close> is an exception that leaves the function: the only one is
  the validation error of the response built in the handler of a malformed message. An
  exception of the dispatch is caught and answered; the handlers raise before they change
  anything, so the state is then the one after the heartbeat update.
\<close>

definition handle_message ::
  "runtime \<Rightarrow> WebSocketManager \<Rightarrow> conn_id \<Rightarrow> (string \<times> json) list \<Rightarrow> datetime \<Rightarrow>
   exn + (WebSocketManager \<times> WebSocketResponse)" where
  "handle_message rt m cid message_data now =
     (case map_of (connections m) cid of
        None \<Rightarrow> Inr (m, error_response ''error'' ''Connection not found'' None)
      | Some connection0 \<Rightarrow>
          (case WebSocketMessage_init message_data of
             None \<Rightarrow>
               (case error_response_raw ''error'' ''Invalid message format''
                       (map_of message_data ''request_id'') of
                  Inl e \<Rightarrow> Inl e
                | Inr r \<Rightarrow> Inr (m, r))
           | Some message \<Rightarrow>
               let connection = update_heartbeat connection0 now;
                   m1 = store cid connection m
               in (case dispatch rt m1 cid connection message now of
                     Inr res \<Rightarrow> Inr res
                   | Inl e \<Rightarrow>
                       Inr (m1, error_response (msg_type message)
                                  (''Internal error: '' @ exn_str e)
                                  (msg_request_id message)))))"

subsection \<open>Sending\<close>

text \<open>
  The send loop shared, word for word, by \<^verbatim>\<open>broadcast_event\<close>, \<^verbatim>\<open>send_to_user\<close>
  and \<^verbatim>\<open>send_to_task_subscribers\<close>: it returns the state, the sends made and
  \<^verbatim>\<open>failed_connections\<close>.
\<close>

fun send_all ::
  "transport \<Rightarrow> WebSocketEvent \<Rightarrow> conn_id list \<Rightarrow> WebSocketManager \<Rightarrow>
   WebSocketManager \<times> io list \<times> conn_id list" where
  "send_all tr ev [] m = (m, [], [])"
| "send_all tr ev (cid # cids) m =
     (case map_of (connections m) cid of
        None \<Rightarrow> send_all tr ev cids m
      | Some connection \<Rightarrow>
          if is_active connection then
            (case send_event tr connection ev of
               (connection', success) \<Rightarrow>
                 (case send_all tr ev cids (store cid connection' m) of
                    (m', log, failed) \<Rightarrow>
                      (m', Send cid ev success # log,
                       if \<not> success then cid # failed else failed)))
          else send_all tr ev cids m)"

text \<open>The clean-up loop: \<^verbatim>\<open>for connection_id in failed_connections: disconnect\<close>.\<close>

fun disconnect_all ::
  "transport \<Rightarrow> conn_id list \<Rightarrow> WebSocketManager \<Rightarrow> WebSocketManager \<times> io list" where
  "disconnect_all tr [] m = (m, [])"
| "disconnect_all tr (cid # cids) m =
     (case disconnect tr m cid of
        (m', log) \<Rightarrow>
          (case disconnect_all tr cids m' of (m'', log') \<Rightarrow> (m'', log @ log')))"

definition send_and_clean ::
  "transport \<Rightarrow> WebSocketEvent \<Rightarrow> conn_id list \<Rightarrow> WebSocketManager \<Rightarrow> WebSocketManager \<times> io list" where
  "send_and_clean tr ev targets m =
     (case send_all tr ev targets m of
        (m1, sends, failed) \<Rightarrow>
          (case disconnect_all tr failed m1 of (m2, closes) \<Rightarrow> (m2, sends @ closes)))"

text \<open>The target resolution of \<^verbatim>\<open>broadcast_event\<close>.\<close>

definition target_connections :: "WebSocketManager \<Rightarrow> WebSocketEvent \<Rightarrow> conn_id list" where
  "target_connections m ev =
     (let t0 = [];
          t1 = (case ev_task_id ev of
                  None \<Rightarrow> t0
                | Some task_id \<Rightarrow>
                    (case map_of (task_subscribers m) task_id of
                       None \<Rightarrow> t0
                     | Some s \<Rightarrow> set_update s t0));
          t2 = (case ev_user_id ev of
                  None \<Rightarrow> t1
                | Some u \<Rightarrow>
                    if u \<noteq> [] then
                      (case map_of (user_connections m) u of
                         None \<Rightarrow> t1
                       | Some s \<Rightarrow> set_update s t1)
                    else t1)
      in if ev_type ev \<in> set [SYSTEM_STATUS, ERROR]
         then set_update (map fst (connections m)) t2
         else t2)"

definition broadcast_event ::
  "transport \<Rightarrow> WebSocketManager \<Rightarrow> WebSocketEvent \<Rightarrow> WebSocketManager \<times> io list" where
  "broadcast_event tr m ev =
     (if connections m = [] then (m, [])
      else send_and_clean tr ev (target_connections m ev) m)"

definition send_to_user ::
  "transport \<Rightarrow> WebSocketManager \<Rightarrow> string \<Rightarrow> WebSocketEvent \<Rightarrow> WebSocketManager \<times> io list" where
  "send_to_user tr m u ev =
     (case map_of (user_connections m) u of
        None \<Rightarrow> (m, [])
      | Some s \<Rightarrow> send_and_clean tr ev s m)"

definition send_to_task_subscribers ::
  "transport \<Rightarrow> WebSocketManager \<Rightarrow> uuid \<Rightarrow> WebSocketEvent \<Rightarrow> WebSocketManager \<times> io list" where
  "send_to_task_subscribers tr m task_id ev =
     (case map_of (task_subscribers m) task_id of
        None \<Rightarrow> (m, [])
      | Some s \<Rightarrow> send_and_clean tr ev s m)"

text \<open>
  One iteration of \<^verbatim>\<open>_heartbeat_loop\<close>, after its sleep. The loop itself never ends.
\<close>

definition heartbeat_iteration ::
  "runtime \<Rightarrow> transport \<Rightarrow> WebSocketManager \<Rightarrow> uuid \<Rightarrow> datetime \<Rightarrow> WebSocketManager \<times> io list" where
  "heartbeat_iteration rt tr m eid now =
     (if connections m \<noteq> []
      then broadcast_event tr m (create_heartbeat_event rt eid now None None)
      else (m, []))"

subsection \<open>Reading the record of transport calls\<close>

fun attempted :: "io list \<Rightarrow> conn_id list" where
  "attempted [] = []"
| "attempted (Send cid ev ok # log) = cid # attempted log"
| "attempted (x # log) = attempted log"

fun delivered :: "io list \<Rightarrow> conn_id list" where
  "delivered [] = []"
| "delivered (Send cid ev ok # log) = (if ok then cid # delivered log else delivered log)"
| "delivered (x # log) = delivered log"

fun closed :: "io list \<Rightarrow> conn_id list" where
  "closed [] = []"
| "closed (Close cid ok # log) = cid # closed log"
| "closed (x # log) = closed log"

subsection \<open>Reading the registry\<close>

text \<open>
  A connection id is live when it is registered and its connection is marked active:
  the test \<^verbatim>\<open>connection and connection.is_active\<close> of the send loops.
\<close>

definition is_live :: "WebSocketManager \<Rightarrow> conn_id \<Rightarrow> bool" where
  "is_live m cid = (case map_of (connections m) cid of None \<Rightarrow> False | Some c \<Rightarrow> is_active c)"

text \<open>The send to the transport of a registered connection raises.\<close>

definition send_fails :: "transport \<Rightarrow> WebSocketManager \<Rightarrow> WebSocketEvent \<Rightarrow> conn_id \<Rightarrow> bool" where
  "send_fails tr m ev cid =
     (case map_of (connections m) cid of None \<Rightarrow> False | Some c \<Rightarrow> send_raises tr (websocket c) ev)"

section \<open>Sequences of operations, and the consistency of the indices\<close>

text \<open>
  The manager's operations as data, each run with the transport behaviour of its time.
  A \<^verbatim>\<open>connect\<close> whose accept raises leaves the state as it was.
\<close>

datatype op =
    Connect ws conn_id "string option" "string option" datetime uuid
  | Disconnect conn_id
  | HandleMessage conn_id "(string \<times> json) list" datetime
  | Broadcast WebSocketEvent
  | SendToUser string WebSocketEvent
  | SendToTask uuid WebSocketEvent

fun step :: "runtime \<Rightarrow> transport \<Rightarrow> op \<Rightarrow> WebSocketManager \<Rightarrow> WebSocketManager \<times> io list" where
  "step rt tr (Connect w cid uid sid now eid) m =
     (case connect rt tr m w cid uid sid now eid of Inl e \<Rightarrow> (m, []) | Inr res \<Rightarrow> res)"
| "step rt tr (Disconnect cid) m = disconnect tr m cid"
| "step rt tr (HandleMessage cid message_data now) m =
     (case handle_message rt m cid message_data now of
        Inl e \<Rightarrow> (m, [])
      | Inr res \<Rightarrow> (fst res, []))"
| "step rt tr (Broadcast ev) m = broadcast_event tr m ev"
| "step rt tr (SendToUser u ev) m = send_to_user tr m u ev"
| "step rt tr (SendToTask task_id ev) m = send_to_task_subscribers tr m task_id ev"

fun run :: "runtime \<Rightarrow> (transport \<times> op) list \<Rightarrow> WebSocketManager \<Rightarrow> WebSocketManager \<times> io list" where
  "run rt [] m = (m, [])"
| "run rt (x # ops) m =
     (let r = step rt (fst x) (snd x) m; r' = run rt ops (fst r)
      in (fst r', snd r @ snd r'))"

text \<open>Every \<^verbatim>\<open>connect\<close> of the sequence is given an id that is not registered then.\<close>

fun connects_fresh :: "runtime \<Rightarrow> (transport \<times> op) list \<Rightarrow> WebSocketManager \<Rightarrow> bool" where
  "connects_fresh rt [] m = True"
| "connects_fresh rt (x # ops) m =
     ((case snd x of
         Connect w cid uid sid now eid \<Rightarrow> map_of (connections m) cid = None
       | _ \<Rightarrow> True)
      \<and> connects_fresh rt ops (fst (step rt (fst x) (snd x) m)))"

definition lookup_set :: "('k \<times> 'a list) list \<Rightarrow> 'k \<Rightarrow> 'a set" where
  "lookup_set idx k = (case map_of idx k of None \<Rightarrow> {} | Some s \<Rightarrow> set s)"

text \<open>
  The two indices are exact reflections of the registry: an id is in the set of a user
  (of a task) exactly when the registered connection of that id has that user (has
  subscribed to that task); every connection is stored under its own id; and no index
  holds an empty set.
\<close>

definition index_consistent :: "WebSocketManager \<Rightarrow> bool" where
  "index_consistent m \<longleftrightarrow>
     (\<forall>cid c. map_of (connections m) cid = Some c \<longrightarrow> connection_id c = cid) \<and>
     (\<forall>u cid. cid \<in> lookup_set (user_connections m) u \<longleftrightarrow>
        (\<exists>c. map_of (connections m) cid = Some c \<and> user_id c = Some u \<and> u \<noteq> [])) \<and>
     (\<forall>t cid. cid \<in> lookup_set (task_subscribers m) t \<longleftrightarrow>
        (\<exists>c. map_of (connections m) cid = Some c \<and> t \<in> set (subscribed_tasks c))) \<and>
     (\<forall>u. map_of (user_connections m) u \<noteq> Some []) \<and>
     (\<forall>t. map_of (task_subscribers m) t \<noteq> Some [])"

section \<open>Scenarios\<close>

text \<open>A runtime and transports to evaluate the operations on.\<close>

definition rt_demo :: runtime where
  "rt_demo =
     \<lparr>UUID_parse = (\<lambda>s. if s = ''00000000-0000-0000-0000-000000000001'' then Some 1
                        else if s = ''00000000-0000-0000-0000-000000000002'' then Some 2
                        else None),
      UUID_str = (\<lambda>u. if u = 1 then ''00000000-0000-0000-0000-000000000001''
                      else ''00000000-0000-0000-0000-000000000002''),
      isoformat = (\<lambda>t. ''1970-01-01T00:00:00'')\<rparr>"

definition tr_ok :: transport where
  "tr_ok = \<lparr>accept_raises = (\<lambda>w. False), send_raises = (\<lambda>w ev. False),
            close_raises = (\<lambda>w. False)\<rparr>"

definition tr_send_fails :: "ws \<Rightarrow> transport" where
  "tr_send_fails w0 = \<lparr>accept_raises = (\<lambda>w. False), send_raises = (\<lambda>w ev. w = w0),
                       close_raises = (\<lambda>w. False)\<rparr>"

text \<open>
  Two connections of user \<^verbatim>\<open>u1\<close>: the confirmation sent to \<^verbatim>\<open>a\<close> at connect
  time failed, which left \<^verbatim>\<open>a\<close> registered and marked inactive; \<^verbatim>\<open>b\<close> is active.
  Both then subscribe to task 1.
\<close>

definition subscribe_msg :: "string \<Rightarrow> (string \<times> json) list" where
  "subscribe_msg task = [(''type'', JStr ''subscribe_task''),
                         (''data'', JDict [(''task_id'', JStr task)]),
                         (''request_id'', JStr ''r1'')]"

definition m_inactive :: WebSocketManager where
  "m_inactive =
     fst (run rt_demo
       [(tr_send_fails 1, Connect 1 ''a'' (Some ''u1'') None 0 7),
        (tr_ok, Connect 2 ''b'' (Some ''u1'') None 0 8),
        (tr_ok, HandleMessage ''a'' (subscribe_msg ''00000000-0000-0000-0000-000000000001'') 1),
        (tr_ok, HandleMessage ''b'' (subscribe_msg ''00000000-0000-0000-0000-000000000001'') 2)]
       WebSocketManager_init)"

definition ev_task1 :: WebSocketEvent where
  "ev_task1 = create_task_event 9 3 TASK_UPDATED 1 [] None None"

text \<open>
  Three active connections: \<^verbatim>\<open>a\<close> and \<^verbatim>\<open>b\<close> of user \<^verbatim>\<open>u1\<close>, both
  subscribed to task 1, and \<^verbatim>\<open>c\<close> without user and without subscription.
\<close>

definition ops_three :: "(transport \<times> op) list" where
  "ops_three =
     [(tr_ok, Connect 1 ''a'' (Some ''u1'') None 0 7),
      (tr_ok, Connect 2 ''b'' (Some ''u1'') None 0 8),
      (tr_ok, Connect 3 ''c'' None None 0 9),
      (tr_ok, HandleMessage ''a'' (subscribe_msg ''00000000-0000-0000-0000-000000000001'') 1),
      (tr_ok, HandleMessage ''b'' (subscribe_msg ''00000000-0000-0000-0000-000000000001'') 2)]"

definition m_three :: WebSocketManager where
  "m_three = fst (run rt_demo ops_three WebSocketManager_init)"

text \<open>
  The same connection id given to \<^verbatim>\<open>connect\<close> twice, for two users, and then
  disconnected.
\<close>

definition ops_same_id :: "(transport \<times> op) list" where
  "ops_same_id =
     [(tr_ok, Connect 1 ''a'' (Some ''u1'') None 0 7),
      (tr_ok, Connect 2 ''a'' (Some ''u2'') None 1 8),
      (tr_ok, Disconnect ''a'')]"

definition ev_status :: WebSocketEvent where
  "ev_status = create_system_event 10 3 SYSTEM_STATUS [] None None"

definition ev_desktop :: WebSocketEvent where
  "ev_desktop = create_system_event 11 3 DESKTOP_STATUS [] None None"

definition ev_error_task1 :: WebSocketEvent where
  "ev_error_task1 = create_error_event 12 3 ''failed'' None (Some 1) None None"

text \<open>The connections of that state, and parsed subscribe and unsubscribe messages.\<close>

definition conn_a :: WebSocketConnection where
  "conn_a = \<lparr>websocket = 1, connection_id = ''a'', user_id = Some ''u1'', session_id = None,
             connected_at = 0, last_heartbeat = 1, subscribed_tasks = [1], is_active = True\<rparr>"

definition conn_c :: WebSocketConnection where
  "conn_c = \<lparr>websocket = 3, connection_id = ''c'', user_id = None, session_id = None,
             connected_at = 0, last_heartbeat = 0, subscribed_tasks = [], is_active = True\<rparr>"

definition msg_subscribe2 :: WebSocketMessage where
  "msg_subscribe2 = \<lparr>msg_type = ''subscribe_task'',
                     msg_data = [(''task_id'', JStr ''00000000-0000-0000-0000-000000000002'')],
                     msg_request_id = Some ''r2''\<rparr>"

definition msg_unsubscribe1 :: WebSocketMessage where
  "msg_unsubscribe1 = \<lparr>msg_type = ''unsubscribe_task'',
                       msg_data = [(''task_id'', JStr ''00000000-0000-0000-0000-000000000001'')],
                       msg_request_id = Some ''r3''\<rparr>"

text \<open>
  The results of subscribing \<^verbatim>\<open>a\<close> to task 2, and of unsubscribing \<^verbatim>\<open>a\<close> from
  task 1 once \<^verbatim>\<open>b\<close> is gone and \<^verbatim>\<open>a\<close> is the only subscriber.
\<close>

definition after_subscribe2 :: "WebSocketManager \<times> WebSocketResponse" where
  "after_subscribe2 = projr (handle_subscribe_task rt_demo m_three ''a'' conn_a msg_subscribe2)"

definition m_without_b :: WebSocketManager where
  "m_without_b = fst (disconnect tr_ok m_three ''b'')"

definition after_unsubscribe1 :: "WebSocketManager \<times> WebSocketResponse" where
  "after_unsubscribe1 =
     projr (handle_unsubscribe_task rt_demo m_without_b ''a'' conn_a msg_unsubscribe1)"

text \<open>
  A transport whose close raises; and a connection whose transport fails at the first
  broadcast after it connected.
\<close>

definition tr_close_fails :: transport where
  "tr_close_fails = \<lparr>accept_raises = (\<lambda>w. False), send_raises = (\<lambda>w ev. False),
                     close_raises = (\<lambda>w. True)\<rparr>"

definition ops_failed_send :: "(transport \<times> op) list" where
  "ops_failed_send =
     [(tr_ok, Connect 1 ''a'' None None 0 7),
      (tr_send_fails 1, Broadcast ev_status)]"

text \<open>
  Raw messages: a heartbeat with a correlation id, an object without a type, and a
  heartbeat whose correlation id is a list.
\<close>

definition raw_heartbeat :: "(string \<times> json) list" where
  "raw_heartbeat = [(''type'', JStr ''heartbeat''), (''request_id'', JStr ''r1'')]"

definition raw_no_type :: "(string \<times> json) list" where
  "raw_no_type = [(''data'', JDict []), (''request_id'', JStr ''r4'')]"

definition raw_bad_request_id :: "(string \<times> json) list" where
  "raw_bad_request_id = [(''type'', JStr ''heartbeat''), (''request_id'', JList [JInt 1])]"

text \<open>
  States in which \<^verbatim>\<open>connect\<close> was given a registered id: \<^verbatim>\<open>a\<close> connected for
  user \<^verbatim>\<open>u1\<close> and again for user \<^verbatim>\<open>u2\<close>; and \<^verbatim>\<open>a\<close> connected, subscribed
  to task 1 and connected again.
\<close>

definition conn_b :: WebSocketConnection where
  "conn_b = \<lparr>websocket = 2, connection_id = ''b'', user_id = Some ''u1'', session_id = None,
             connected_at = 0, last_heartbeat = 2, subscribed_tasks = [1], is_active = True\<rparr>"

definition m_same_id :: WebSocketManager where
  "m_same_id =
     fst (run rt_demo
       [(tr_ok, Connect 1 ''a'' (Some ''u1'') None 0 7),
        (tr_ok, Connect 2 ''a'' (Some ''u2'') None 1 8)]
       WebSocketManager_init)"

definition m_reconnected :: WebSocketManager where
  "m_reconnected =
     fst (run rt_demo
       [(tr_ok, Connect 1 ''a'' None None 0 7),
        (tr_ok, HandleMessage ''a'' (subscribe_msg ''00000000-0000-0000-0000-000000000001'') 1),
        (tr_ok, Connect 2 ''a'' None None 2 8)]
       WebSocketManager_init)"

definition conn_a_again :: WebSocketConnection where
  "conn_a_again = \<lparr>websocket = 2, connection_id = ''a'', user_id = None, session_id = None,
                   connected_at = 2, last_heartbeat = 2, subscribed_tasks = [], is_active = True\<rparr>"

section \<open>Properties\<close>

subsection \<open>Sets and dictionaries\<close>

lemma set_set_add [simp]: "set (set_add x xs) = insert x (set xs)"
  by (auto simp: set_add_def)

lemma distinct_set_add [simp]: "distinct (set_add x xs) = distinct xs"
  by (auto simp: set_add_def)

lemma set_add_member [simp]: "x \<in> set xs \<Longrightarrow> set_add x xs = xs"
  by (simp add: set_add_def)

lemma set_add_nonempty [simp]: "set_add x xs \<noteq> []"
  by (auto simp: set_add_def)

lemma set_set_discard [simp]: "set (set_discard x xs) = set xs - {x}"
  by (auto simp: set_discard_def)

lemma distinct_set_discard [simp]: "distinct xs \<Longrightarrow> distinct (set_discard x xs)"
  by (simp add: set_discard_def distinct_removeAll)

lemma set_discard_absent [simp]: "x \<notin> set xs \<Longrightarrow> set_discard x xs = xs"
  by (simp add: set_discard_def)

lemma set_set_update [simp]: "set (set_update ys xs) = set ys \<union> set xs"
  unfolding set_update_def by (induction ys arbitrary: xs) auto

lemma distinct_set_update [simp]: "distinct (set_update ys xs) = distinct xs"
  unfolding set_update_def by (induction ys arbitrary: xs) auto

lemma connections_store [simp]:
  "map_of (connections (store cid c m)) = (map_of (connections m))(cid \<mapsto> c)"
  "user_connections (store cid c m) = user_connections m"
  "task_subscribers (store cid c m) = task_subscribers m"
  by (simp_all add: store_def update_conv')

lemma send_event_cases:
  "send_event tr c ev =
     (if send_raises tr (websocket c) ev then (c\<lparr>is_active := False\<rparr>, False) else (c, True))"
  by (simp add: send_event_def send_text_def)

subsection \<open>The indices, read as sets\<close>

lemma lookup_set_index_add:
  "lookup_set (index_add k cid idx) k' =
     (if k' = k then insert cid (lookup_set idx k) else lookup_set idx k')"
  by (simp add: lookup_set_def index_add_def update_conv' split: option.splits)

lemma lookup_set_index_discard:
  "lookup_set (index_discard k cid idx) k' =
     (if k' = k then lookup_set idx k - {cid} else lookup_set idx k')"
proof (cases "map_of idx k")
  case None
  then show ?thesis by (simp add: lookup_set_def index_discard_def)
next
  case (Some s)
  have "set_discard cid s = [] \<Longrightarrow> set s - {cid} = {}"
    using set_set_discard [of cid s] by simp
  then show ?thesis using Some
    by (auto simp: lookup_set_def index_discard_def update_conv' delete_conv'
        split: option.splits)
qed

lemma lookup_set_fold_discard:
  "lookup_set (fold (\<lambda>k idx. index_discard k cid idx) ks idx) k' =
     (if k' \<in> set ks then lookup_set idx k' - {cid} else lookup_set idx k')"
  by (induction ks arbitrary: idx) (auto simp: lookup_set_index_discard)

subsection \<open>disconnect\<close>

lemma disconnect_unknown:
  "map_of (connections m) cid = None \<Longrightarrow> disconnect tr m cid = (m, [])"
  by (simp add: disconnect_def)

lemma disconnect_registry:
  "map_of (connections (fst (disconnect tr m cid))) = (map_of (connections m))(cid := None)"
  by (auto simp: disconnect_def Let_def delete_conv' split: option.splits)

lemma disconnect_users:
  "lookup_set (user_connections (fst (disconnect tr m cid))) u =
     (case map_of (connections m) cid of
        None \<Rightarrow> lookup_set (user_connections m) u
      | Some c \<Rightarrow>
          if user_id c = Some u \<and> u \<noteq> [] then lookup_set (user_connections m) u - {cid}
          else lookup_set (user_connections m) u)"
  by (auto simp: disconnect_def Let_def lookup_set_index_discard split: option.splits)

lemma disconnect_tasks:
  "lookup_set (task_subscribers (fst (disconnect tr m cid))) t =
     (case map_of (connections m) cid of
        None \<Rightarrow> lookup_set (task_subscribers m) t
      | Some c \<Rightarrow>
          if t \<in> set (subscribed_tasks c) then lookup_set (task_subscribers m) t - {cid}
          else lookup_set (task_subscribers m) t)"
  by (auto simp: disconnect_def Let_def lookup_set_fold_discard split: option.splits)

lemma disconnect_log:
  "snd (disconnect tr m cid) =
     (case map_of (connections m) cid of
        None \<Rightarrow> []
      | Some c \<Rightarrow> if is_active c then [Close cid (\<not> close_raises tr (websocket c))] else [])"
  by (auto simp: disconnect_def Let_def ws_close_def split: option.splits)

subsection \<open>The send loop\<close>

lemma send_all_Cons:
  "send_all tr ev (cid # cids) m =
     (case map_of (connections m) cid of
        None \<Rightarrow> send_all tr ev cids m
      | Some c \<Rightarrow>
          if is_active c then
            (let ok = \<not> send_raises tr (websocket c) ev;
                 c' = (if ok then c else c\<lparr>is_active := False\<rparr>);
                 r = send_all tr ev cids (store cid c' m)
             in (fst r, Send cid ev ok # fst (snd r),
                 if ok then snd (snd r) else cid # snd (snd r)))
          else send_all tr ev cids m)"
  by (simp add: send_event_cases case_prod_unfold Let_def split: option.splits)

lemma is_live_store:
  "is_live (store x c m) cid = (if cid = x then is_active c else is_live m cid)"
  by (simp add: is_live_def)

lemma send_fails_store:
  "send_fails tr (store x c m) ev cid =
     (if cid = x then send_raises tr (websocket c) ev else send_fails tr m ev cid)"
  by (simp add: send_fails_def)

lemma send_all_indices [simp]:
  "user_connections (fst (send_all tr ev ts m)) = user_connections m \<and>
   task_subscribers (fst (send_all tr ev ts m)) = task_subscribers m"
proof (induction ts arbitrary: m)
  case Nil
  then show ?case by simp
next
  case (Cons x xs)
  show ?case
  proof (cases "map_of (connections m) x")
    case None
    then show ?thesis using Cons.IH [of m] by (simp add: send_all_Cons del: send_all.simps)
  next
    case (Some c)
    then show ?thesis
      using Cons.IH [of m] Cons.IH [of "store x c m"] Cons.IH [of "store x (c\<lparr>is_active := False\<rparr>) m"]
      by (simp add: send_all_Cons Let_def del: send_all.simps)
  qed
qed

lemma send_all_registry:
  "map_of (connections (fst (send_all tr ev ts m))) cid =
     (case map_of (connections m) cid of
        None \<Rightarrow> None
      | Some c \<Rightarrow>
          Some (if cid \<in> set ts \<and> is_active c \<and> send_raises tr (websocket c) ev
                then c\<lparr>is_active := False\<rparr> else c))"
proof (induction ts arbitrary: m)
  case Nil
  then show ?case by (simp split: option.splits)
next
  case (Cons x xs)
  show ?case
  proof (cases "map_of (connections m) x")
    case None
    then show ?thesis using Cons.IH [of m]
      by (auto simp add: send_all_Cons simp del: send_all.simps split: option.splits)
  next
    case (Some c)
    then show ?thesis
      using Cons.IH [of m] Cons.IH [of "store x c m"] Cons.IH [of "store x (c\<lparr>is_active := False\<rparr>) m"]
      by (auto simp add: send_all_Cons Let_def simp del: send_all.simps split: option.splits)
  qed
qed

lemma send_all_failed:
  "set (snd (snd (send_all tr ev ts m))) =
     {cid \<in> set ts. is_live m cid \<and> send_fails tr m ev cid}"
proof (induction ts arbitrary: m)
  case Nil
  then show ?case by simp
next
  case (Cons x xs)
  show ?case
  proof (cases "map_of (connections m) x")
    case None
    then show ?thesis using Cons.IH [of m]
      by (auto simp add: send_all_Cons is_live_def simp del: send_all.simps)
  next
    case (Some c)
    then show ?thesis
      using Cons.IH [of m] Cons.IH [of "store x c m"] Cons.IH [of "store x (c\<lparr>is_active := False\<rparr>) m"]
      by (auto simp add: send_all_Cons Let_def is_live_store send_fails_store
          simp del: send_all.simps) (auto simp: is_live_def send_fails_def)
  qed
qed

lemma send_all_attempted:
  "set (attempted (fst (snd (send_all tr ev ts m)))) = {cid \<in> set ts. is_live m cid}"
proof (induction ts arbitrary: m)
  case Nil
  then show ?case by simp
next
  case (Cons x xs)
  show ?case
  proof (cases "map_of (connections m) x")
    case None
    then show ?thesis using Cons.IH [of m]
      by (auto simp add: send_all_Cons is_live_def simp del: send_all.simps)
  next
    case (Some c)
    then show ?thesis
      using Cons.IH [of m] Cons.IH [of "store x c m"] Cons.IH [of "store x (c\<lparr>is_active := False\<rparr>) m"]
      by (auto simp add: send_all_Cons Let_def is_live_store
          simp del: send_all.simps) (auto simp: is_live_def)
  qed
qed

lemma send_all_delivered:
  "set (delivered (fst (snd (send_all tr ev ts m)))) =
     {cid \<in> set ts. is_live m cid \<and> \<not> send_fails tr m ev cid}"
proof (induction ts arbitrary: m)
  case Nil
  then show ?case by simp
next
  case (Cons x xs)
  show ?case
  proof (cases "map_of (connections m) x")
    case None
    then show ?thesis using Cons.IH [of m]
      by (auto simp add: send_all_Cons is_live_def simp del: send_all.simps)
  next
    case (Some c)
    then show ?thesis
      using Cons.IH [of m] Cons.IH [of "store x c m"] Cons.IH [of "store x (c\<lparr>is_active := False\<rparr>) m"]
      by (auto simp add: send_all_Cons Let_def is_live_store send_fails_store
          simp del: send_all.simps) (auto simp: is_live_def send_fails_def)
  qed
qed

lemma send_all_closed [simp]: "closed (fst (snd (send_all tr ev ts m))) = []"
proof (induction ts arbitrary: m)
  case Nil
  then show ?case by simp
next
  case (Cons x xs)
  then show ?case
    by (auto simp add: send_all_Cons Let_def simp del: send_all.simps split: option.splits)
qed

lemma send_all_once:
  "distinct ts \<Longrightarrow> attempted (fst (snd (send_all tr ev ts m))) = filter (is_live m) ts"
proof (induction ts arbitrary: m)
  case Nil
  then show ?case by simp
next
  case (Cons x xs)
  have other: "filter (is_live (store x c m)) xs = filter (is_live m) xs" for c
    using Cons.prems by (intro filter_cong) (auto simp: is_live_store)
  show ?case
  proof (cases "map_of (connections m) x")
    case None
    then show ?thesis using Cons.IH [of m] Cons.prems
      by (auto simp add: send_all_Cons is_live_def simp del: send_all.simps)
  next
    case (Some c)
    then show ?thesis
      using Cons.IH [of m] Cons.IH [of "store x c m"] Cons.IH [of "store x (c\<lparr>is_active := False\<rparr>) m"]
        Cons.prems other
      by (auto simp add: send_all_Cons Let_def simp del: send_all.simps) (auto simp: is_live_def)
  qed
qed

subsection \<open>The clean-up loop\<close>

lemma disconnect_all_Cons:
  "disconnect_all tr (cid # cids) m =
     (let r = disconnect tr m cid; r' = disconnect_all tr cids (fst r)
      in (fst r', snd r @ snd r'))"
  by (simp add: case_prod_unfold Let_def)

lemma is_live_disconnect:
  "is_live (fst (disconnect tr m x)) cid = (cid \<noteq> x \<and> is_live m cid)"
  by (simp add: is_live_def disconnect_registry)

lemma disconnect_all_registry:
  "map_of (connections (fst (disconnect_all tr cids m))) cid =
     (if cid \<in> set cids then None else map_of (connections m) cid)"
proof (induction cids arbitrary: m)
  case Nil
  then show ?case by simp
next
  case (Cons x xs)
  then show ?case
    by (simp add: disconnect_all_Cons Let_def disconnect_registry del: disconnect_all.simps)
qed

lemma attempted_append [simp]: "attempted (a @ b) = attempted a @ attempted b"
  by (induction a rule: attempted.induct) auto

lemma delivered_append [simp]: "delivered (a @ b) = delivered a @ delivered b"
  by (induction a rule: delivered.induct) auto

lemma closed_append [simp]: "closed (a @ b) = closed a @ closed b"
  by (induction a rule: closed.induct) auto

lemma disconnect_all_attempted [simp]: "attempted (snd (disconnect_all tr cids m)) = []"
proof (induction cids arbitrary: m)
  case Nil
  then show ?case by simp
next
  case (Cons x xs)
  have "attempted (snd (disconnect tr m x)) = []"
    by (simp add: disconnect_log split: option.splits)
  then show ?case using Cons
    by (simp add: disconnect_all_Cons Let_def del: disconnect_all.simps)
qed

lemma disconnect_all_delivered [simp]: "delivered (snd (disconnect_all tr cids m)) = []"
proof (induction cids arbitrary: m)
  case Nil
  then show ?case by simp
next
  case (Cons x xs)
  have "delivered (snd (disconnect tr m x)) = []"
    by (simp add: disconnect_log split: option.splits)
  then show ?case using Cons
    by (simp add: disconnect_all_Cons Let_def del: disconnect_all.simps)
qed

lemma disconnect_all_closed:
  "set (closed (snd (disconnect_all tr cids m))) = {cid \<in> set cids. is_live m cid}"
proof (induction cids arbitrary: m)
  case Nil
  then show ?case by simp
next
  case (Cons x xs)
  have "set (closed (snd (disconnect tr m x))) = {cid. cid = x \<and> is_live m cid}"
    by (auto simp: disconnect_log is_live_def split: option.splits)
  then show ?case using Cons [of "fst (disconnect tr m x)"]
    by (auto simp add: disconnect_all_Cons Let_def is_live_disconnect simp del: disconnect_all.simps)
qed

lemma disconnect_all_users:
  "cid \<notin> set cids \<Longrightarrow>
     cid \<in> lookup_set (user_connections (fst (disconnect_all tr cids m))) u
       \<longleftrightarrow> cid \<in> lookup_set (user_connections m) u"
proof (induction cids arbitrary: m)
  case Nil
  then show ?case by simp
next
  case (Cons x xs)
  then show ?case
    by (auto simp add: disconnect_all_Cons Let_def disconnect_users
        simp del: disconnect_all.simps split: option.splits if_splits)
qed

lemma disconnect_all_tasks:
  "cid \<notin> set cids \<Longrightarrow>
     cid \<in> lookup_set (task_subscribers (fst (disconnect_all tr cids m))) t
       \<longleftrightarrow> cid \<in> lookup_set (task_subscribers m) t"
proof (induction cids arbitrary: m)
  case Nil
  then show ?case by simp
next
  case (Cons x xs)
  then show ?case
    by (auto simp add: disconnect_all_Cons Let_def disconnect_tasks
        simp del: disconnect_all.simps split: option.splits if_splits)
qed

subsection \<open>Send and clean up\<close>

lemma send_and_clean_unfold:
  "send_and_clean tr ev ts m =
     (let r = send_all tr ev ts m; r' = disconnect_all tr (snd (snd r)) (fst r)
      in (fst r', fst (snd r) @ snd r'))"
  by (simp add: send_and_clean_def case_prod_unfold Let_def)

lemma is_live_send_all:
  "is_live (fst (send_all tr ev ts m)) cid =
     (is_live m cid \<and> \<not> (cid \<in> set ts \<and> send_fails tr m ev cid))"
  by (auto simp: is_live_def send_fails_def send_all_registry split: option.splits)

lemma send_and_clean_attempted:
  "set (attempted (snd (send_and_clean tr ev ts m))) = {cid \<in> set ts. is_live m cid}"
  by (simp add: send_and_clean_unfold Let_def send_all_attempted)

lemma send_and_clean_delivered:
  "set (delivered (snd (send_and_clean tr ev ts m))) =
     {cid \<in> set ts. is_live m cid \<and> \<not> send_fails tr m ev cid}"
  by (simp add: send_and_clean_unfold Let_def send_all_delivered)

lemma send_and_clean_closed [simp]: "closed (snd (send_and_clean tr ev ts m)) = []"
proof -
  have "set (closed (snd (send_and_clean tr ev ts m))) = {}"
    by (auto simp: send_and_clean_unfold Let_def disconnect_all_closed send_all_failed
        is_live_send_all)
  then show ?thesis by simp
qed

lemma send_and_clean_registry:
  "map_of (connections (fst (send_and_clean tr ev ts m))) cid =
     (if cid \<in> set ts \<and> is_live m cid \<and> send_fails tr m ev cid then None
      else map_of (connections m) cid)"
  by (auto simp: send_and_clean_unfold Let_def disconnect_all_registry send_all_failed
      send_all_registry is_live_def send_fails_def split: option.splits)

lemma send_and_clean_users:
  "\<not> (cid \<in> set ts \<and> is_live m cid \<and> send_fails tr m ev cid) \<Longrightarrow>
     cid \<in> lookup_set (user_connections (fst (send_and_clean tr ev ts m))) u
       \<longleftrightarrow> cid \<in> lookup_set (user_connections m) u"
  using disconnect_all_users [of cid "snd (snd (send_all tr ev ts m))" tr
      "fst (send_all tr ev ts m)" u]
  by (simp add: send_and_clean_unfold Let_def send_all_failed)

lemma send_and_clean_tasks:
  "\<not> (cid \<in> set ts \<and> is_live m cid \<and> send_fails tr m ev cid) \<Longrightarrow>
     cid \<in> lookup_set (task_subscribers (fst (send_and_clean tr ev ts m))) t
       \<longleftrightarrow> cid \<in> lookup_set (task_subscribers m) t"
  using disconnect_all_tasks [of cid "snd (snd (send_all tr ev ts m))" tr
      "fst (send_all tr ev ts m)" t]
  by (simp add: send_and_clean_unfold Let_def send_all_failed)

subsection \<open>The indices, key by key\<close>

lemma set_discard_twice [simp]: "set_discard x (set_discard x xs) = set_discard x xs"
  by (simp add: set_discard_def)

lemma set_discard_empty_iff: "set_discard x xs = [] \<longleftrightarrow> set xs \<subseteq> {x}"
  using set_set_discard [of x xs] by (metis Diff_eq_empty_iff set_empty)

lemma map_of_index_discard:
  "map_of (index_discard k cid idx) k' =
     (if k' = k then
        (case map_of idx k of
           None \<Rightarrow> None
         | Some s \<Rightarrow> if set_discard cid s = [] then None else Some (set_discard cid s))
      else map_of idx k')"
  by (auto simp: index_discard_def update_conv' delete_conv' split: option.splits)

lemma map_of_fold_discard:
  "map_of (fold (\<lambda>k idx. index_discard k cid idx) ks idx) k' =
     (if k' \<in> set ks then
        (case map_of idx k' of
           None \<Rightarrow> None
         | Some s \<Rightarrow> if set_discard cid s = [] then None else Some (set_discard cid s))
      else map_of idx k')"
proof (induction ks arbitrary: idx)
  case Nil
  then show ?case by simp
next
  case (Cons k ks)
  show ?case
    by (simp add: Cons.IH map_of_index_discard split: option.splits)
qed

lemma map_of_index_add:
  "map_of (index_add k cid idx) k' =
     (if k' = k then Some (set_add cid (case map_of idx k of None \<Rightarrow> [] | Some s \<Rightarrow> s))
      else map_of idx k')"
  by (simp add: index_add_def update_conv')

lemma disconnect_users_key:
  "map_of (user_connections (fst (disconnect tr m cid))) u =
     (case map_of (connections m) cid of
        None \<Rightarrow> map_of (user_connections m) u
      | Some c \<Rightarrow>
          if user_id c = Some u \<and> u \<noteq> [] then
            (case map_of (user_connections m) u of
               None \<Rightarrow> None
             | Some s \<Rightarrow> if set_discard cid s = [] then None else Some (set_discard cid s))
          else map_of (user_connections m) u)"
  by (auto simp: disconnect_def Let_def map_of_index_discard split: option.splits)

lemma disconnect_tasks_key:
  "map_of (task_subscribers (fst (disconnect tr m cid))) t =
     (case map_of (connections m) cid of
        None \<Rightarrow> map_of (task_subscribers m) t
      | Some c \<Rightarrow>
          if t \<in> set (subscribed_tasks c) then
            (case map_of (task_subscribers m) t of
               None \<Rightarrow> None
             | Some s \<Rightarrow> if set_discard cid s = [] then None else Some (set_discard cid s))
          else map_of (task_subscribers m) t)"
  by (auto simp: disconnect_def Let_def map_of_fold_discard split: option.splits)

subsection \<open>The operations keep the indices consistent\<close>

lemma index_consistent_init: "index_consistent WebSocketManager_init"
  by (simp add: index_consistent_def WebSocketManager_init_def lookup_set_def)

lemma map_of_no_empty:
  "map_of idx k \<noteq> Some [] \<Longrightarrow> (lookup_set idx k = {}) = (map_of idx k = None)"
  by (auto simp: lookup_set_def split: option.splits)

lemma index_consistent_store:
  assumes "index_consistent m" and "map_of (connections m) cid = Some c"
    and "connection_id c' = connection_id c" and "user_id c' = user_id c"
    and "subscribed_tasks c' = subscribed_tasks c"
  shows "index_consistent (store cid c' m)"
  using assms unfolding index_consistent_def
  by (simp (no_asm_simp))

lemma index_consistent_disconnect:
  assumes "index_consistent m"
  shows "index_consistent (fst (disconnect tr m cid))"
proof (cases "map_of (connections m) cid")
  case None
  then show ?thesis using assms by (simp add: disconnect_unknown)
next
  case (Some c0)
  have ids: "map_of (connections m) x = Some c \<Longrightarrow> connection_id c = x" for x c
    using assms by (simp add: index_consistent_def)
  have users: "x \<in> lookup_set (user_connections m) u \<longleftrightarrow>
      (\<exists>c. map_of (connections m) x = Some c \<and> user_id c = Some u \<and> u \<noteq> [])" for x u
    using assms by (simp add: index_consistent_def)
  have tasks: "x \<in> lookup_set (task_subscribers m) t \<longleftrightarrow>
      (\<exists>c. map_of (connections m) x = Some c \<and> t \<in> set (subscribed_tasks c))" for x t
    using assms by (simp add: index_consistent_def)
  have ne: "map_of (user_connections m) u \<noteq> Some []" "map_of (task_subscribers m) t \<noteq> Some []"
    for u t
    using assms by (simp_all add: index_consistent_def)
  show ?thesis
    unfolding index_consistent_def
  proof (intro conjI allI impI)
    fix x c
    assume "map_of (connections (fst (disconnect tr m cid))) x = Some c"
    then show "connection_id c = x"
      using ids [of x c] by (simp add: disconnect_registry split: if_splits)
  next
    fix u x
    show "x \<in> lookup_set (user_connections (fst (disconnect tr m cid))) u \<longleftrightarrow>
      (\<exists>c. map_of (connections (fst (disconnect tr m cid))) x = Some c \<and> user_id c = Some u
         \<and> u \<noteq> [])"
      using Some users [of x u]
      by (auto simp: disconnect_users disconnect_registry)
  next
    fix t x
    show "x \<in> lookup_set (task_subscribers (fst (disconnect tr m cid))) t \<longleftrightarrow>
      (\<exists>c. map_of (connections (fst (disconnect tr m cid))) x = Some c
         \<and> t \<in> set (subscribed_tasks c))"
      using Some tasks [of x t]
      by (auto simp: disconnect_tasks disconnect_registry)
  next
    fix u
    show "map_of (user_connections (fst (disconnect tr m cid))) u \<noteq> Some []"
      using ne(1) [of u] by (simp add: disconnect_users_key split: option.splits)
  next
    fix t
    show "map_of (task_subscribers (fst (disconnect tr m cid))) t \<noteq> Some []"
      using ne(2) [of t] by (simp add: disconnect_tasks_key split: option.splits)
  qed
qed

lemma index_consistent_disconnect_all:
  "index_consistent m \<Longrightarrow> index_consistent (fst (disconnect_all tr cids m))"
proof (induction cids arbitrary: m)
  case Nil
  then show ?case by simp
next
  case (Cons x xs)
  then show ?case
    by (simp add: disconnect_all_Cons Let_def index_consistent_disconnect
        del: disconnect_all.simps)
qed

lemma index_consistent_send_all:
  assumes "index_consistent m"
  shows "index_consistent (fst (send_all tr ev ts m))"
  using assms unfolding index_consistent_def
  by (simp (no_asm_simp) add: send_all_registry split: option.splits)

lemma index_consistent_send_and_clean:
  "index_consistent m \<Longrightarrow> index_consistent (fst (send_and_clean tr ev ts m))"
  by (simp add: send_and_clean_unfold Let_def index_consistent_send_all
      index_consistent_disconnect_all)

lemma connect_Inr:
  assumes "connect rt tr m w cid uid sid now eid = Inr (m', log)"
  shows "\<exists>c'. map_of (connections m') = (map_of (connections m))(cid \<mapsto> c')
            \<and> connection_id c' = cid \<and> user_id c' = uid \<and> subscribed_tasks c' = []
            \<and> last_heartbeat c' = now"
    and "task_subscribers m' = task_subscribers m"
    and "user_connections m' =
      (case uid of None \<Rightarrow> user_connections m
       | Some u \<Rightarrow> if u \<noteq> [] then index_add u cid (user_connections m) else user_connections m)"
    and "closed log = []"
  using assms
  by (auto simp: connect_def Let_def send_event_cases WebSocketConnection_init_def store_def
      update_conv' split: if_splits option.splits)

lemma connect_Inl:
  "connect rt tr m w cid uid sid now eid = Inl e \<longleftrightarrow> accept_raises tr w \<and> e = TransportError"
  by (auto simp: connect_def Let_def send_event_cases split: if_splits option.splits)

lemma index_consistent_connect:
  assumes "index_consistent m" and "map_of (connections m) cid = None"
    and "connect rt tr m w cid uid sid now eid = Inr (m', log)"
  shows "index_consistent m'"
proof -
  obtain c' where reg: "map_of (connections m') = (map_of (connections m))(cid \<mapsto> c')"
    and c': "connection_id c' = cid" "user_id c' = uid" "subscribed_tasks c' = []"
    using connect_Inr(1) [OF assms(3)] by blast
  note tsk = connect_Inr(2) [OF assms(3)]
  note usr = connect_Inr(3) [OF assms(3)]
  have ids: "map_of (connections m) x = Some c \<Longrightarrow> connection_id c = x" for x c
    using assms(1) by (simp add: index_consistent_def)
  have users: "x \<in> lookup_set (user_connections m) u \<longleftrightarrow>
      (\<exists>c. map_of (connections m) x = Some c \<and> user_id c = Some u \<and> u \<noteq> [])" for x u
    using assms(1) by (simp add: index_consistent_def)
  have tasks: "x \<in> lookup_set (task_subscribers m) t \<longleftrightarrow>
      (\<exists>c. map_of (connections m) x = Some c \<and> t \<in> set (subscribed_tasks c))" for x t
    using assms(1) by (simp add: index_consistent_def)
  have ne: "map_of (user_connections m) u \<noteq> Some []" "map_of (task_subscribers m) t \<noteq> Some []"
    for u t
    using assms(1) by (simp_all add: index_consistent_def)
  show ?thesis
    unfolding index_consistent_def
  proof (intro conjI allI impI)
    fix x c
    assume "map_of (connections m') x = Some c"
    then show "connection_id c = x"
      using ids [of x c] c' by (simp add: reg split: if_splits)
  next
    fix u x
    show "x \<in> lookup_set (user_connections m') u \<longleftrightarrow>
      (\<exists>c. map_of (connections m') x = Some c \<and> user_id c = Some u \<and> u \<noteq> [])"
      using users [of x u] assms(2) c'
      by (auto simp: reg usr lookup_set_index_add split: option.splits)
  next
    fix t x
    show "x \<in> lookup_set (task_subscribers m') t \<longleftrightarrow>
      (\<exists>c. map_of (connections m') x = Some c \<and> t \<in> set (subscribed_tasks c))"
      using tasks [of x t] assms(2) c' by (auto simp: reg tsk)
  next
    fix u
    show "map_of (user_connections m') u \<noteq> Some []"
      using ne(1) [of u] by (simp add: usr map_of_index_add split: option.splits)
  next
    fix t
    show "map_of (task_subscribers m') t \<noteq> Some []"
      using ne(2) [of t] by (simp add: tsk)
  qed
qed

subsection \<open>The message handlers\<close>

lemma handle_subscribe_task_Inr:
  assumes "handle_subscribe_task rt m cid c msg = Inr (m', r)"
  shows "resp_request_id r = msg_request_id msg"
    and "(m' = m \<and> \<not> resp_success r)
       \<or> (\<exists>t. parse_task_id rt (dict_get (msg_data msg) ''task_id'') = Inr t
              \<and> m' = (store cid (subscribe_to_task c t) m)
                      \<lparr>task_subscribers := index_add t (connection_id c) (task_subscribers m)\<rparr>
              \<and> resp_success r)"
  using assms
  by (auto simp: handle_subscribe_task_def Let_def error_response_def success_response_def
      split: if_splits sum.splits exn.splits)

lemma handle_unsubscribe_task_Inr:
  assumes "handle_unsubscribe_task rt m cid c msg = Inr (m', r)"
  shows "resp_request_id r = msg_request_id msg"
    and "(m' = m \<and> \<not> resp_success r)
       \<or> (\<exists>t. parse_task_id rt (dict_get (msg_data msg) ''task_id'') = Inr t
              \<and> m' = (store cid (unsubscribe_from_task c t) m)
                      \<lparr>task_subscribers := index_discard t (connection_id c) (task_subscribers m)\<rparr>
              \<and> resp_success r)"
  using assms
  by (auto simp: handle_unsubscribe_task_def Let_def error_response_def success_response_def
      split: if_splits sum.splits exn.splits)

lemma dispatch_request_id:
  "dispatch rt m cid c msg now = Inr (m', r) \<Longrightarrow> resp_request_id r = msg_request_id msg"
  by (auto simp: dispatch_def handle_subscribe_task_Inr(1) handle_unsubscribe_task_Inr(1)
      handle_heartbeat_def handle_get_status_def success_response_def error_response_def
      split: if_splits)

lemma index_consistent_subscribe:
  assumes "index_consistent m" and "map_of (connections m) cid = Some c"
  shows "index_consistent
           ((store cid (subscribe_to_task c t) m)
              \<lparr>task_subscribers := index_add t (connection_id c) (task_subscribers m)\<rparr>)"
proof -
  have ids: "map_of (connections m) x = Some c' \<Longrightarrow> connection_id c' = x" for x c'
    using assms(1) by (simp add: index_consistent_def)
  have users: "x \<in> lookup_set (user_connections m) u \<longleftrightarrow>
      (\<exists>c. map_of (connections m) x = Some c \<and> user_id c = Some u \<and> u \<noteq> [])" for x u
    using assms(1) by (simp add: index_consistent_def)
  have tasks: "x \<in> lookup_set (task_subscribers m) t' \<longleftrightarrow>
      (\<exists>c. map_of (connections m) x = Some c \<and> t' \<in> set (subscribed_tasks c))" for x t'
    using assms(1) by (simp add: index_consistent_def)
  have ne: "map_of (user_connections m) u \<noteq> Some []" "map_of (task_subscribers m) t' \<noteq> Some []"
    for u t'
    using assms(1) by (simp_all add: index_consistent_def)
  have cid: "connection_id c = cid"
    using ids assms(2) by blast
  show ?thesis
    unfolding index_consistent_def
  proof (intro conjI allI impI)
    fix x c'
    assume "map_of (connections ((store cid (subscribe_to_task c t) m)
              \<lparr>task_subscribers := index_add t (connection_id c) (task_subscribers m)\<rparr>)) x = Some c'"
    then show "connection_id c' = x"
      using ids [of x c'] cid by (auto simp: subscribe_to_task_def split: if_splits)
  next
    fix u x
    show "x \<in> lookup_set (user_connections ((store cid (subscribe_to_task c t) m)
              \<lparr>task_subscribers := index_add t (connection_id c) (task_subscribers m)\<rparr>)) u \<longleftrightarrow>
      (\<exists>c'. map_of (connections ((store cid (subscribe_to_task c t) m)
              \<lparr>task_subscribers := index_add t (connection_id c) (task_subscribers m)\<rparr>)) x = Some c'
          \<and> user_id c' = Some u \<and> u \<noteq> [])"
      using users [of x u] assms(2) by (auto simp: subscribe_to_task_def)
  next
    fix t' x
    show "x \<in> lookup_set (task_subscribers ((store cid (subscribe_to_task c t) m)
              \<lparr>task_subscribers := index_add t (connection_id c) (task_subscribers m)\<rparr>)) t' \<longleftrightarrow>
      (\<exists>c'. map_of (connections ((store cid (subscribe_to_task c t) m)
              \<lparr>task_subscribers := index_add t (connection_id c) (task_subscribers m)\<rparr>)) x = Some c'
          \<and> t' \<in> set (subscribed_tasks c'))"
      using tasks [of x t'] assms(2) cid
      by (auto simp: subscribe_to_task_def lookup_set_index_add)
  next
    fix u
    show "map_of (user_connections ((store cid (subscribe_to_task c t) m)
              \<lparr>task_subscribers := index_add t (connection_id c) (task_subscribers m)\<rparr>)) u \<noteq> Some []"
      using ne(1) [of u] by simp
  next
    fix t'
    show "map_of (task_subscribers ((store cid (subscribe_to_task c t) m)
              \<lparr>task_subscribers := index_add t (connection_id c) (task_subscribers m)\<rparr>)) t' \<noteq> Some []"
      using ne(2) [of t'] by (simp add: map_of_index_add)
  qed
qed

lemma index_consistent_unsubscribe:
  assumes "index_consistent m" and "map_of (connections m) cid = Some c"
  shows "index_consistent
           ((store cid (unsubscribe_from_task c t) m)
              \<lparr>task_subscribers := index_discard t (connection_id c) (task_subscribers m)\<rparr>)"
proof -
  have ids: "map_of (connections m) x = Some c' \<Longrightarrow> connection_id c' = x" for x c'
    using assms(1) by (simp add: index_consistent_def)
  have users: "x \<in> lookup_set (user_connections m) u \<longleftrightarrow>
      (\<exists>c. map_of (connections m) x = Some c \<and> user_id c = Some u \<and> u \<noteq> [])" for x u
    using assms(1) by (simp add: index_consistent_def)
  have tasks: "x \<in> lookup_set (task_subscribers m) t' \<longleftrightarrow>
      (\<exists>c. map_of (connections m) x = Some c \<and> t' \<in> set (subscribed_tasks c))" for x t'
    using assms(1) by (simp add: index_consistent_def)
  have ne: "map_of (user_connections m) u \<noteq> Some []" "map_of (task_subscribers m) t' \<noteq> Some []"
    for u t'
    using assms(1) by (simp_all add: index_consistent_def)
  have cid: "connection_id c = cid"
    using ids assms(2) by blast
  show ?thesis
    unfolding index_consistent_def
  proof (intro conjI allI impI)
    fix x c'
    assume "map_of (connections ((store cid (unsubscribe_from_task c t) m)
              \<lparr>task_subscribers := index_discard t (connection_id c) (task_subscribers m)\<rparr>)) x = Some c'"
    then show "connection_id c' = x"
      using ids [of x c'] cid by (auto simp: unsubscribe_from_task_def split: if_splits)
  next
    fix u x
    show "x \<in> lookup_set (user_connections ((store cid (unsubscribe_from_task c t) m)
              \<lparr>task_subscribers := index_discard t (connection_id c) (task_subscribers m)\<rparr>)) u \<longleftrightarrow>
      (\<exists>c'. map_of (connections ((store cid (unsubscribe_from_task c t) m)
              \<lparr>task_subscribers := index_discard t (connection_id c) (task_subscribers m)\<rparr>)) x = Some c'
          \<and> user_id c' = Some u \<and> u \<noteq> [])"
      using users [of x u] assms(2) by (auto simp: unsubscribe_from_task_def)
  next
    fix t' x
    show "x \<in> lookup_set (task_subscribers ((store cid (unsubscribe_from_task c t) m)
              \<lparr>task_subscribers := index_discard t (connection_id c) (task_subscribers m)\<rparr>)) t' \<longleftrightarrow>
      (\<exists>c'. map_of (connections ((store cid (unsubscribe_from_task c t) m)
              \<lparr>task_subscribers := index_discard t (connection_id c) (task_subscribers m)\<rparr>)) x = Some c'
          \<and> t' \<in> set (subscribed_tasks c'))"
      using tasks [of x t'] assms(2) cid
      by (auto simp: unsubscribe_from_task_def lookup_set_index_discard)
  next
    fix u
    show "map_of (user_connections ((store cid (unsubscribe_from_task c t) m)
              \<lparr>task_subscribers := index_discard t (connection_id c) (task_subscribers m)\<rparr>)) u \<noteq> Some []"
      using ne(1) [of u] by simp
  next
    fix t'
    show "map_of (task_subscribers ((store cid (unsubscribe_from_task c t) m)
              \<lparr>task_subscribers := index_discard t (connection_id c) (task_subscribers m)\<rparr>)) t' \<noteq> Some []"
      using ne(2) [of t'] by (simp add: map_of_index_discard split: option.splits)
  qed
qed

lemma index_consistent_dispatch:
  assumes "index_consistent m" and "map_of (connections m) cid = Some c"
    and "dispatch rt m cid c msg now = Inr (m', r)"
  shows "index_consistent m'"
proof -
  have hb: "index_consistent (store cid (update_heartbeat c now) m)"
    using assms(1,2) by (intro index_consistent_store [of m cid c]) (simp_all add: update_heartbeat_def)
  from assms(3) consider
      (sub) "handle_subscribe_task rt m cid c msg = Inr (m', r)"
    | (unsub) "handle_unsubscribe_task rt m cid c msg = Inr (m', r)"
    | (beat) "m' = store cid (update_heartbeat c now) m"
    | (same) "m' = m"
    by (auto simp: dispatch_def handle_heartbeat_def handle_get_status_def split: if_splits)
  then show ?thesis
  proof cases
    case sub
    then show ?thesis
      using handle_subscribe_task_Inr(2) [OF sub] assms(1,2) index_consistent_subscribe
      by blast
  next
    case unsub
    then show ?thesis
      using handle_unsubscribe_task_Inr(2) [OF unsub] assms(1,2) index_consistent_unsubscribe
      by blast
  next
    case beat
    then show ?thesis using hb by simp
  next
    case same
    then show ?thesis using assms(1) by simp
  qed
qed

lemma index_consistent_handle_message:
  assumes "index_consistent m" and "handle_message rt m cid raw now = Inr (m', r)"
  shows "index_consistent m'"
proof (cases "map_of (connections m) cid")
  case None
  then show ?thesis using assms by (simp add: handle_message_def)
next
  case (Some c)
  show ?thesis
  proof (cases "WebSocketMessage_init raw")
    case None
    then show ?thesis using assms Some
      by (auto simp: handle_message_def split: sum.splits)
  next
    case (Some msg)
    let ?c1 = "update_heartbeat c now"
    let ?m1 = "store cid ?c1 m"
    have m1: "index_consistent ?m1"
      using assms(1) \<open>map_of (connections m) cid = Some c\<close>
      by (intro index_consistent_store [of m cid c]) (simp_all add: update_heartbeat_def)
    have reg: "map_of (connections ?m1) cid = Some ?c1"
      by simp
    show ?thesis
    proof (cases "dispatch rt ?m1 cid ?c1 msg now")
      case (Inl e)
      then show ?thesis using assms(2) Some \<open>map_of (connections m) cid = Some c\<close> m1
        by (simp add: handle_message_def Let_def)
    next
      case (Inr res)
      then have "dispatch rt ?m1 cid ?c1 msg now = Inr (m', r)"
        using assms(2) Some \<open>map_of (connections m) cid = Some c\<close>
        by (simp add: handle_message_def Let_def)
      then show ?thesis using index_consistent_dispatch [OF m1 reg] by blast
    qed
  qed
qed

lemma store_same: "map_of (connections m) cid = Some c \<Longrightarrow> store cid c m = m"
  by (simp add: store_def update_triv)

lemma store_store [simp]: "store cid c (store cid c' m) = store cid c m"
  by (simp add: store_def)

lemma index_add_twice [simp]: "index_add k cid (index_add k cid idx) = index_add k cid idx"
  by (simp add: index_add_def update_conv')

lemma subscribe_to_task_twice [simp]:
  "subscribe_to_task (subscribe_to_task c t) t = subscribe_to_task c t"
  by (simp add: subscribe_to_task_def)

lemma handle_subscribe_task_again:
  assumes "handle_subscribe_task rt m cid c msg = Inr (m1, r)"
    and "map_of (connections m1) cid = Some c1"
  shows "handle_subscribe_task rt m1 cid c1 msg = Inr (m1, r)"
proof (cases "truthy (dict_get (msg_data msg) ''task_id'')")
  case False
  then show ?thesis using assms(1) by (auto simp: handle_subscribe_task_def Let_def)
next
  case True
  show ?thesis
  proof (cases "parse_task_id rt (dict_get (msg_data msg) ''task_id'')")
    case (Inl e)
    then show ?thesis using assms(1) True
      by (cases e) (auto simp: handle_subscribe_task_def Let_def)
  next
    case (Inr t)
    have m1: "m1 = (store cid (subscribe_to_task c t) m)
                     \<lparr>task_subscribers := index_add t (connection_id c) (task_subscribers m)\<rparr>"
      and r: "r = success_response (msg_type msg)
                    [(''task_id'', JStr (UUID_str rt t)), (''subscribed'', JBool True)]
                    (msg_request_id msg)"
      using assms(1) True Inr by (auto simp: handle_subscribe_task_def Let_def)
    have c1: "c1 = subscribe_to_task c t"
      using assms(2) m1 by simp
    have "(store cid (subscribe_to_task c1 t) m1)
            \<lparr>task_subscribers := index_add t (connection_id c1) (task_subscribers m1)\<rparr> = m1"
      unfolding c1 m1 by (simp add: store_def subscribe_to_task_def)
    then show ?thesis using True Inr r
      by (simp add: handle_subscribe_task_def Let_def)
  qed
qed

lemma index_discard_absent:
  assumes "cid \<notin> lookup_set idx k" and "map_of idx k \<noteq> Some []"
  shows "index_discard k cid idx = idx"
proof (cases "map_of idx k")
  case None
  then show ?thesis by (simp add: index_discard_def)
next
  case (Some s)
  then have "cid \<notin> set s" "s \<noteq> []"
    using assms by (simp_all add: lookup_set_def)
  then show ?thesis using Some by (simp add: index_discard_def update_triv)
qed

lemma handle_unsubscribe_task_not_subscribed:
  assumes "index_consistent m" and "map_of (connections m) cid = Some c"
    and "truthy (dict_get (msg_data msg) ''task_id'')"
    and "parse_task_id rt (dict_get (msg_data msg) ''task_id'') = Inr t"
    and "t \<notin> set (subscribed_tasks c)"
  shows "handle_unsubscribe_task rt m cid c msg =
           Inr (m, success_response (msg_type msg)
                     [(''task_id'', JStr (UUID_str rt t)), (''subscribed'', JBool False)]
                     (msg_request_id msg))"
proof -
  have cid: "connection_id c = cid"
    using assms(1,2) by (simp add: index_consistent_def)
  have "cid \<notin> lookup_set (task_subscribers m) t"
    using assms(1,2,5) unfolding index_consistent_def by auto
  moreover have "map_of (task_subscribers m) t \<noteq> Some []"
    using assms(1) by (simp add: index_consistent_def)
  ultimately have idx: "index_discard t cid (task_subscribers m) = task_subscribers m"
    by (rule index_discard_absent)
  have "unsubscribe_from_task c t = c"
    using assms(5) by (simp add: unsubscribe_from_task_def)
  then have "(store cid (unsubscribe_from_task c t) m)
          \<lparr>task_subscribers := index_discard t (connection_id c) (task_subscribers m)\<rparr> = m"
    using idx cid assms(2) by (simp add: store_same)
  then show ?thesis using assms(3,4)
    by (simp add: handle_unsubscribe_task_def Let_def)
qed

lemma handle_unsubscribe_task_prunes:
  assumes "handle_unsubscribe_task rt m cid c msg = Inr (m', r)" and "resp_success r"
    and "parse_task_id rt (dict_get (msg_data msg) ''task_id'') = Inr t"
  shows "map_of (task_subscribers m') t =
           (case map_of (task_subscribers m) t of
              None \<Rightarrow> None
            | Some s \<Rightarrow> if set s \<subseteq> {connection_id c} then None
                        else Some (set_discard (connection_id c) s))"
  using handle_unsubscribe_task_Inr(2) [OF assms(1)] assms(2,3)
  by (auto simp: map_of_index_discard set_discard_empty_iff split: option.splits)

lemma disconnect_own_user:
  assumes "map_of (connections m) cid = Some c" and "user_id c = Some u" and "u \<noteq> []"
  shows "cid \<notin> lookup_set (user_connections (fst (disconnect tr m cid))) u"
    and "map_of (user_connections (fst (disconnect tr m cid))) u \<noteq> Some []"
  using assms by (simp_all add: disconnect_users disconnect_users_key split: option.splits)

lemma disconnect_own_task:
  assumes "map_of (connections m) cid = Some c" and "t \<in> set (subscribed_tasks c)"
  shows "cid \<notin> lookup_set (task_subscribers (fst (disconnect tr m cid))) t"
    and "map_of (task_subscribers (fst (disconnect tr m cid))) t \<noteq> Some []"
  using assms by (simp_all add: disconnect_tasks disconnect_tasks_key split: option.splits)

subsection \<open>Sequences of operations\<close>

lemma index_consistent_step:
  assumes "index_consistent m"
    and "case op of Connect w cid uid sid now eid \<Rightarrow> map_of (connections m) cid = None
         | _ \<Rightarrow> True"
  shows "index_consistent (fst (step rt tr op m))"
proof (cases op)
  case (Connect w cid uid sid now eid)
  show ?thesis
  proof (cases "connect rt tr m w cid uid sid now eid")
    case (Inl e)
    then show ?thesis using Connect assms(1) by simp
  next
    case (Inr res)
    then have "connect rt tr m w cid uid sid now eid = Inr (fst res, snd res)"
      by simp
    then have "index_consistent (fst res)"
      using index_consistent_connect [of m cid rt tr w uid sid now eid "fst res" "snd res"]
        assms Connect by simp
    then show ?thesis using Connect Inr by simp
  qed
next
  case (Disconnect cid)
  then show ?thesis using assms(1) by (simp add: index_consistent_disconnect)
next
  case (HandleMessage cid raw now)
  show ?thesis
  proof (cases "handle_message rt m cid raw now")
    case (Inl e)
    then show ?thesis using HandleMessage assms(1) by simp
  next
    case (Inr res)
    then have "handle_message rt m cid raw now = Inr (fst res, snd res)"
      by simp
    then have "index_consistent (fst res)"
      using index_consistent_handle_message [OF assms(1)] by blast
    then show ?thesis using HandleMessage Inr by simp
  qed
next
  case (Broadcast ev)
  then show ?thesis using assms(1)
    by (simp add: broadcast_event_def index_consistent_send_and_clean)
next
  case (SendToUser u ev)
  then show ?thesis using assms(1)
    by (simp add: send_to_user_def index_consistent_send_and_clean split: option.splits)
next
  case (SendToTask t ev)
  then show ?thesis using assms(1)
    by (simp add: send_to_task_subscribers_def index_consistent_send_and_clean
        split: option.splits)
qed

lemma index_consistent_run:
  "index_consistent m \<Longrightarrow> connects_fresh rt ops m \<Longrightarrow> index_consistent (fst (run rt ops m))"
proof (induction ops arbitrary: m)
  case Nil
  then show ?case by simp
next
  case (Cons x ops)
  have "index_consistent (fst (step rt (fst x) (snd x) m))"
    using Cons.prems by (intro index_consistent_step) simp_all
  then show ?case using Cons.IH [of "fst (step rt (fst x) (snd x) m)"] Cons.prems
    by (simp add: Let_def)
qed

lemma step_closed:
  assumes "\<forall>cid. op \<noteq> Disconnect cid"
  shows "closed (snd (step rt tr op m)) = []"
proof (cases op)
  case (Connect w cid uid sid now eid)
  show ?thesis
  proof (cases "connect rt tr m w cid uid sid now eid")
    case (Inl e)
    then show ?thesis using Connect by simp
  next
    case (Inr res)
    then have "connect rt tr m w cid uid sid now eid = Inr (fst res, snd res)"
      by simp
    then have "closed (snd res) = []"
      by (rule connect_Inr(4))
    then show ?thesis using Connect Inr by simp
  qed
next
  case (Disconnect cid)
  then show ?thesis using assms by simp
next
  case (HandleMessage cid raw now)
  then show ?thesis by (simp split: sum.splits)
next
  case (Broadcast ev)
  then show ?thesis by (simp add: broadcast_event_def)
next
  case (SendToUser u ev)
  then show ?thesis by (simp add: send_to_user_def split: option.splits)
next
  case (SendToTask t ev)
  then show ?thesis by (simp add: send_to_task_subscribers_def split: option.splits)
qed

subsection \<open>The targets of a broadcast\<close>

lemma set_target_connections:
  "set (target_connections m ev) =
     (case ev_task_id ev of None \<Rightarrow> {} | Some t \<Rightarrow> lookup_set (task_subscribers m) t)
     \<union> (case ev_user_id ev of
          None \<Rightarrow> {}
        | Some u \<Rightarrow> if u \<noteq> [] then lookup_set (user_connections m) u else {})
     \<union> (if ev_type ev = SYSTEM_STATUS \<or> ev_type ev = ERROR then fst ` set (connections m)
        else {})"
  by (auto simp: target_connections_def lookup_set_def Let_def split: option.splits)

lemma distinct_target_connections: "distinct (target_connections m ev)"
  by (simp add: target_connections_def Let_def split: option.splits)

lemma is_live_registered: "is_live m cid \<Longrightarrow> cid \<in> fst ` set (connections m)"
  by (auto simp: is_live_def split: option.splits dest: map_of_SomeD intro: rev_image_eqI)

lemma not_live_empty: "connections m = [] \<Longrightarrow> \<not> is_live m cid"
  by (simp add: is_live_def)

lemma send_and_clean_once:
  "distinct ts \<Longrightarrow> attempted (snd (send_and_clean tr ev ts m)) = filter (is_live m) ts"
  by (simp add: send_and_clean_unfold Let_def send_all_once)

subsection \<open>Scenario states, evaluated\<close>

lemma m_inactive_eval:
  "m_inactive =
     \<lparr>connections =
        [(''a'', \<lparr>websocket = 1, connection_id = ''a'', user_id = Some ''u1'', session_id = None,
                 connected_at = 0, last_heartbeat = 1, subscribed_tasks = [1], is_active = False\<rparr>),
         (''b'', \<lparr>websocket = 2, connection_id = ''b'', user_id = Some ''u1'', session_id = None,
                 connected_at = 0, last_heartbeat = 2, subscribed_tasks = [1], is_active = True\<rparr>)],
      user_connections = [(''u1'', [''a'', ''b''])],
      task_subscribers = [(1, [''a'', ''b''])]\<rparr>"
  by code_simp

lemma m_three_eval:
  "m_three =
     \<lparr>connections =
        [(''a'', \<lparr>websocket = 1, connection_id = ''a'', user_id = Some ''u1'', session_id = None,
                 connected_at = 0, last_heartbeat = 1, subscribed_tasks = [1], is_active = True\<rparr>),
         (''b'', \<lparr>websocket = 2, connection_id = ''b'', user_id = Some ''u1'', session_id = None,
                 connected_at = 0, last_heartbeat = 2, subscribed_tasks = [1], is_active = True\<rparr>),
         (''c'', \<lparr>websocket = 3, connection_id = ''c'', user_id = None, session_id = None,
                 connected_at = 0, last_heartbeat = 0, subscribed_tasks = [], is_active = True\<rparr>)],
      user_connections = [(''u1'', [''a'', ''b''])],
      task_subscribers = [(1, [''a'', ''b''])]\<rparr>"
  by code_simp

lemma m_three_consistent: "index_consistent m_three"
proof -
  have "connects_fresh rt_demo ops_three WebSocketManager_init"
    by code_simp
  then show ?thesis
    unfolding m_three_def by (intro index_consistent_run index_consistent_init)
qed

subsection \<open>The heartbeat factory\<close>

text \<open>
  C9, as the code has it: a heartbeat event has kind HEARTBEAT, a payload whose only key is
  \<^verbatim>\<open>timestamp\<close>, and no task id; its user id and session id are the factory's
  arguments, so that it is system-scoped when the factory is called without a user id
  (as the heartbeat loop calls it).
\<close>

theorem heartbeat_event_fields:
  "ev_type (create_heartbeat_event rt eid now uid sid) = HEARTBEAT
   \<and> map fst (ev_data (create_heartbeat_event rt eid now uid sid)) = [''timestamp'']
   \<and> ev_task_id (create_heartbeat_event rt eid now uid sid) = None
   \<and> ev_user_id (create_heartbeat_event rt eid now uid sid) = uid
   \<and> ev_session_id (create_heartbeat_event rt eid now uid sid) = sid
   \<and> ev_user_id (create_heartbeat_event rt eid now None sid) = None"
  by (simp add: create_heartbeat_event_def)

text \<open>
  C9 as stated fails: the factory called with a user id returns an event scoped to that
  user.
\<close>

theorem heartbeat_event_user_counterexample:
  "ev_user_id (create_heartbeat_event rt_demo 1 0 (Some ''u1'') None) \<noteq> None"
  by (simp add: create_heartbeat_event_def)

subsection \<open>The heartbeat loop\<close>

text \<open>
  C2 at the code: an iteration of the heartbeat loop makes no transport call and leaves
  the manager as it was, whatever connections are registered. The heartbeat event has no
  task id and no user id and its kind HEARTBEAT is not in the list of kinds that
  \<^verbatim>\<open>broadcast_event\<close> sends to every connection, so its target set is empty.
\<close>

theorem heartbeat_iteration_sends_nothing:
  "heartbeat_iteration rt tr m eid now = (m, [])"
  by (simp add: heartbeat_iteration_def broadcast_event_def target_connections_def
      create_heartbeat_event_def send_and_clean_def)

subsection \<open>Connections that the send paths skip\<close>

text \<open>
  C10: in \<^verbatim>\<open>broadcast_event\<close>, \<^verbatim>\<open>send_to_user\<close> and
  \<^verbatim>\<open>send_to_task_subscribers\<close>, a connection id that is not registered or whose
  connection is marked inactive gets no send, is not put in \<^verbatim>\<open>failed_connections\<close>
  (whatever the target list), and is not disconnected: no close, the same registry entry,
  the same memberships in both indices.
\<close>

theorem skipped_connection_untouched:
  assumes "\<not> is_live m cid"
    and "r = broadcast_event tr m ev \<or> r = send_to_user tr m u ev
         \<or> r = send_to_task_subscribers tr m t ev"
  shows "cid \<notin> set (attempted (snd r)) \<and> cid \<notin> set (closed (snd r))
         \<and> cid \<notin> set (snd (snd (send_all tr ev targets m)))
         \<and> map_of (connections (fst r)) cid = map_of (connections m) cid
         \<and> (cid \<in> lookup_set (user_connections (fst r)) u'
              \<longleftrightarrow> cid \<in> lookup_set (user_connections m) u')
         \<and> (cid \<in> lookup_set (task_subscribers (fst r)) t'
              \<longleftrightarrow> cid \<in> lookup_set (task_subscribers m) t')"
proof -
  have clean: "cid \<notin> set (attempted (snd (send_and_clean tr ev ts m)))
      \<and> cid \<notin> set (closed (snd (send_and_clean tr ev ts m)))
      \<and> map_of (connections (fst (send_and_clean tr ev ts m))) cid = map_of (connections m) cid
      \<and> (cid \<in> lookup_set (user_connections (fst (send_and_clean tr ev ts m))) u'
           \<longleftrightarrow> cid \<in> lookup_set (user_connections m) u')
      \<and> (cid \<in> lookup_set (task_subscribers (fst (send_and_clean tr ev ts m))) t'
           \<longleftrightarrow> cid \<in> lookup_set (task_subscribers m) t')" for ts
    using assms(1)
    by (simp add: send_and_clean_attempted send_and_clean_registry send_and_clean_users
        send_and_clean_tasks)
  have failed: "cid \<notin> set (snd (snd (send_all tr ev targets m)))"
    using assms(1) by (simp add: send_all_failed)
  from assms(2) consider
      (b) "r = broadcast_event tr m ev"
    | (u) "r = send_to_user tr m u ev"
    | (t) "r = send_to_task_subscribers tr m t ev"
    by blast
  then show ?thesis
  proof cases
    case b
    then show ?thesis using clean [of "target_connections m ev"] failed
      by (simp add: broadcast_event_def)
  next
    case u
    then show ?thesis
    proof (cases "map_of (user_connections m) u")
      case None
      then show ?thesis using u failed by (simp add: send_to_user_def)
    next
      case (Some s)
      then show ?thesis using u clean [of s] failed by (simp add: send_to_user_def)
    qed
  next
    case t
    then show ?thesis
    proof (cases "map_of (task_subscribers m) t")
      case None
      then show ?thesis using t failed by (simp add: send_to_task_subscribers_def)
    next
      case (Some s)
      then show ?thesis using t clean [of s] failed
        by (simp add: send_to_task_subscribers_def)
    qed
  qed
qed

theorem skipped_connection_untouched_witness:
  "\<not> is_live m_inactive ''a''
   \<and> ''a'' \<in> lookup_set (task_subscribers m_inactive) 1
   \<and> ''a'' \<notin> set (attempted (snd (send_to_task_subscribers tr_ok m_inactive 1 ev_task1)))
   \<and> ''a'' \<notin> set (closed (snd (send_to_task_subscribers tr_ok m_inactive 1 ev_task1)))
   \<and> ''a'' \<notin> set (snd (snd (send_all tr_ok ev_task1 [''a'', ''b''] m_inactive)))
   \<and> map_of (connections (fst (send_to_task_subscribers tr_ok m_inactive 1 ev_task1))) ''a''
       = map_of (connections m_inactive) ''a''
   \<and> ''a'' \<in> lookup_set (user_connections (fst (send_to_task_subscribers tr_ok m_inactive 1 ev_task1))) ''u1''
   \<and> ''a'' \<in> lookup_set (task_subscribers (fst (send_to_task_subscribers tr_ok m_inactive 1 ev_task1))) 1"
proof -
  have h: "\<not> is_live m_inactive ''a''"
    by (simp add: m_inactive_eval is_live_def)
  have s: "''a'' \<in> lookup_set (task_subscribers m_inactive) 1"
    "''a'' \<in> lookup_set (user_connections m_inactive) ''u1''"
    by (simp_all add: m_inactive_eval lookup_set_def)
  show ?thesis
    using h s skipped_connection_untouched [OF h, of
        "send_to_task_subscribers tr_ok m_inactive 1 ev_task1" tr_ok ev_task1 "''u1''" 1
        "[''a'', ''b'']" "''u1''" 1]
    by simp
qed

subsection \<open>Partial failure\<close>



subsection \<open>Broadcast targeting\<close>

text \<open>
  C1, as the code has it. An event with a task id, no user id and a kind other than
  SYSTEM_STATUS and ERROR is sent exactly to the ids of \<^verbatim>\<open>task_subscribers[task_id]\<close>
  that are registered and active, once each, and reaches those whose send does not fail.
  An event of kind SYSTEM_STATUS or ERROR is sent to every registered, active connection,
  whatever its scoping.
\<close>

theorem broadcast_targets:
  "(ev_task_id ev = Some t \<and> ev_user_id ev = None
      \<and> ev_type ev \<noteq> SYSTEM_STATUS \<and> ev_type ev \<noteq> ERROR \<longrightarrow>
      set (attempted (snd (broadcast_event tr m ev)))
        = {cid \<in> lookup_set (task_subscribers m) t. is_live m cid}
      \<and> set (delivered (snd (broadcast_event tr m ev)))
        = {cid \<in> lookup_set (task_subscribers m) t. is_live m cid \<and> \<not> send_fails tr m ev cid})
   \<and> (ev_type ev = SYSTEM_STATUS \<or> ev_type ev = ERROR \<longrightarrow>
      set (attempted (snd (broadcast_event tr m ev))) = {cid. is_live m cid}
      \<and> set (delivered (snd (broadcast_event tr m ev)))
        = {cid. is_live m cid \<and> \<not> send_fails tr m ev cid})
   \<and> distinct (attempted (snd (broadcast_event tr m ev)))"
proof (cases "connections m = []")
  case True
  then show ?thesis by (simp add: broadcast_event_def not_live_empty)
next
  case False
  have once: "distinct (attempted (snd (send_and_clean tr ev (target_connections m ev) m)))"
    by (simp add: send_and_clean_once distinct_target_connections)
  have task: "set (target_connections m ev) = lookup_set (task_subscribers m) t"
    if "ev_task_id ev = Some t" "ev_user_id ev = None"
      "ev_type ev \<noteq> SYSTEM_STATUS" "ev_type ev \<noteq> ERROR"
    using that by (simp add: set_target_connections)
  have sys: "{cid \<in> set (target_connections m ev). is_live m cid \<and> P cid}
               = {cid. is_live m cid \<and> P cid}"
    if "ev_type ev = SYSTEM_STATUS \<or> ev_type ev = ERROR" for P
    using that is_live_registered [of m] by (auto simp: set_target_connections)
  have sys': "{cid \<in> set (target_connections m ev). is_live m cid} = {cid. is_live m cid}"
    if "ev_type ev = SYSTEM_STATUS \<or> ev_type ev = ERROR"
    using sys [OF that, of "\<lambda>_. True"] by simp
  show ?thesis
    using False once task sys sys'
    by (simp add: broadcast_event_def send_and_clean_attempted send_and_clean_delivered)
qed

theorem broadcast_targets_witness:
  "ev_task_id ev_task1 = Some 1 \<and> ev_user_id ev_task1 = None
   \<and> ev_type ev_task1 \<noteq> SYSTEM_STATUS \<and> ev_type ev_task1 \<noteq> ERROR
   \<and> set (attempted (snd (broadcast_event tr_ok m_three ev_task1))) = {''a'', ''b''}
   \<and> set (delivered (snd (broadcast_event tr_ok m_three ev_task1))) = {''a'', ''b''}
   \<and> ev_type ev_status = SYSTEM_STATUS
   \<and> set (attempted (snd (broadcast_event tr_ok m_three ev_status))) = {''a'', ''b'', ''c''}
   \<and> set (delivered (snd (broadcast_event tr_ok m_three ev_status))) = {''a'', ''b'', ''c''}"
proof -
  have ev1: "ev_task_id ev_task1 = Some 1 \<and> ev_user_id ev_task1 = None
      \<and> ev_type ev_task1 \<noteq> SYSTEM_STATUS \<and> ev_type ev_task1 \<noteq> ERROR"
    by (simp add: ev_task1_def create_task_event_def)
  have ev2: "ev_type ev_status = SYSTEM_STATUS \<or> ev_type ev_status = ERROR"
    by (simp add: ev_status_def create_system_event_def)
  have subs: "lookup_set (task_subscribers m_three) 1 = {''a'', ''b''}"
    by (auto simp: m_three_eval lookup_set_def)
  have live: "is_live m_three cid \<longleftrightarrow> cid = ''a'' \<or> cid = ''b'' \<or> cid = ''c''" for cid
    by (simp add: m_three_eval is_live_def)
  have ok: "\<not> send_fails tr_ok m_three ev cid" for ev cid
    by (simp add: send_fails_def tr_ok_def split: option.splits)
  have s1: "{cid \<in> {''a'', ''b''}. is_live m_three cid} = {''a'', ''b''}"
    using live by auto
  have s2: "{cid. is_live m_three cid} = {''a'', ''b'', ''c''}"
    using live by auto
  show ?thesis
    using ev1 ev2 subs ok s1 s2
      broadcast_targets [of ev_task1 1 tr_ok m_three]
      broadcast_targets [of ev_status 0 tr_ok m_three]
    by (simp add: ev_status_def create_system_event_def)
qed

text \<open>
  C1 as stated fails on both counts. An unscoped event of a kind outside the list
  (DESKTOP_STATUS) is sent to nobody although three connections are active; and an ERROR
  event scoped to task 1 alone also reaches \<^verbatim>\<open>c\<close>, which is not a subscriber of task 1.
\<close>

theorem broadcast_targets_counterexample:
  "ev_task_id ev_desktop = None \<and> ev_user_id ev_desktop = None
   \<and> is_live m_three ''c''
   \<and> attempted (snd (broadcast_event tr_ok m_three ev_desktop)) = []
   \<and> ev_task_id ev_error_task1 = Some 1 \<and> ev_user_id ev_error_task1 = None
   \<and> map_of (task_subscribers m_three) 1 = Some [''a'', ''b'']
   \<and> ''c'' \<in> set (delivered (snd (broadcast_event tr_ok m_three ev_error_task1)))"
  by code_simp

subsection \<open>Index consistency\<close>

text \<open>
  C3, as the code has it. In every state reached from the empty manager by connect,
  disconnect, handle_message (subscribe, unsubscribe, heartbeat, status), broadcast_event,
  send_to_user and send_to_task_subscribers, provided every connect is given a connection
  id that is not registered at that moment (the router passes a new uuid4): a connection
  whose user is a key of \<^verbatim>\<open>user_connections\<close> is in that user's set, a connection is
  in the set of every task it has subscribed to that is a key of \<^verbatim>\<open>task_subscribers\<close>,
  no set of either index holds an id that is not registered, and both indices are the
  exact reflections of the registry.
\<close>

theorem index_consistency:
  assumes "connects_fresh rt ops WebSocketManager_init"
    and "m = fst (run rt ops WebSocketManager_init)"
  shows "(\<forall>cid c u s. map_of (connections m) cid = Some c \<and> user_id c = Some u
             \<and> map_of (user_connections m) u = Some s \<longrightarrow> connection_id c \<in> set s)
       \<and> (\<forall>cid c t s. map_of (connections m) cid = Some c \<and> t \<in> set (subscribed_tasks c)
             \<and> map_of (task_subscribers m) t = Some s \<longrightarrow> connection_id c \<in> set s)
       \<and> (\<forall>u s cid. map_of (user_connections m) u = Some s \<and> cid \<in> set s
             \<longrightarrow> map_of (connections m) cid \<noteq> None)
       \<and> (\<forall>t s cid. map_of (task_subscribers m) t = Some s \<and> cid \<in> set s
             \<longrightarrow> map_of (connections m) cid \<noteq> None)
       \<and> index_consistent m"
proof -
  have ic: "index_consistent m"
    using assms index_consistent_run [OF index_consistent_init] by simp
  have ids: "map_of (connections m) x = Some c \<Longrightarrow> connection_id c = x" for x c
    using ic by (simp add: index_consistent_def)
  have users: "x \<in> lookup_set (user_connections m) u \<longleftrightarrow>
      (\<exists>c. map_of (connections m) x = Some c \<and> user_id c = Some u \<and> u \<noteq> [])" for x u
    using ic by (simp add: index_consistent_def)
  have tasks: "x \<in> lookup_set (task_subscribers m) t \<longleftrightarrow>
      (\<exists>c. map_of (connections m) x = Some c \<and> t \<in> set (subscribed_tasks c))" for x t
    using ic by (simp add: index_consistent_def)
  have ne: "map_of (user_connections m) u \<noteq> Some []" for u
    using ic by (simp add: index_consistent_def)
  have nokey: "map_of (user_connections m) [] = None"
  proof (cases "map_of (user_connections m) []")
    case None
    then show ?thesis .
  next
    case (Some s)
    then have "s \<noteq> []" using ne [of "[]"] by simp
    then obtain x where "x \<in> set s" by (cases s) auto
    then have "x \<in> lookup_set (user_connections m) []"
      using Some by (simp add: lookup_set_def)
    then show ?thesis using users [of x "[]"] by simp
  qed
  have a: "connection_id c \<in> set s"
    if "map_of (connections m) cid = Some c" "user_id c = Some u"
      "map_of (user_connections m) u = Some s" for cid c u s
  proof -
    have "u \<noteq> []" using that(3) nokey by auto
    then have "cid \<in> lookup_set (user_connections m) u"
      using users [of cid u] that by simp
    then show ?thesis using that ids [of cid c] by (simp add: lookup_set_def)
  qed
  have b: "connection_id c \<in> set s"
    if "map_of (connections m) cid = Some c" "t \<in> set (subscribed_tasks c)"
      "map_of (task_subscribers m) t = Some s" for cid c t s
  proof -
    have "cid \<in> lookup_set (task_subscribers m) t"
      using tasks [of cid t] that by auto
    then show ?thesis using that ids [of cid c] by (simp add: lookup_set_def)
  qed
  have c: "map_of (connections m) cid \<noteq> None"
    if "map_of (user_connections m) u = Some s" "cid \<in> set s" for u s cid
  proof -
    have "cid \<in> lookup_set (user_connections m) u"
      using that by (simp add: lookup_set_def)
    then show ?thesis using users [of cid u] by auto
  qed
  have d: "map_of (connections m) cid \<noteq> None"
    if "map_of (task_subscribers m) t = Some s" "cid \<in> set s" for t s cid
  proof -
    have "cid \<in> lookup_set (task_subscribers m) t"
      using that by (simp add: lookup_set_def)
    then show ?thesis using tasks [of cid t] by auto
  qed
  show ?thesis using a b c d ic by blast
qed

theorem index_consistency_witness:
  "connects_fresh rt_demo ops_three WebSocketManager_init
   \<and> m_three = fst (run rt_demo ops_three WebSocketManager_init)
   \<and> map_of (user_connections m_three) ''u1'' = Some [''a'', ''b'']
   \<and> map_of (task_subscribers m_three) 1 = Some [''a'', ''b'']
   \<and> map_of (connections m_three) ''a'' \<noteq> None
   \<and> map_of (connections m_three) ''b'' \<noteq> None
   \<and> index_consistent m_three"
proof -
  have f: "connects_fresh rt_demo ops_three WebSocketManager_init"
    by code_simp
  have e: "map_of (user_connections m_three) ''u1'' = Some [''a'', ''b'']"
    "map_of (task_subscribers m_three) 1 = Some [''a'', ''b'']"
    by (simp_all add: m_three_eval)
  note cons = index_consistency [OF f m_three_def]
  have r: "map_of (connections m_three) cid \<noteq> None" if "cid \<in> set [''a'', ''b'']" for cid
    using cons e(1) that by blast
  have "index_consistent m_three"
    using cons by blast
  then show ?thesis
    using f e r [of "''a''"] r [of "''b''"] by (simp add: m_three_def)
qed

text \<open>
  C3 as stated fails when \<^verbatim>\<open>connect\<close> is given an id that is registered: the second
  connection replaces the first in the registry, the first user's set keeps the id, and
  after the disconnect that set holds an id that is not registered.
\<close>

theorem index_consistency_counterexample:
  "map_of (user_connections (fst (run rt_demo ops_same_id WebSocketManager_init))) ''u1''
     = Some [''a'']
   \<and> map_of (connections (fst (run rt_demo ops_same_id WebSocketManager_init))) ''a'' = None"
  by code_simp

subsection \<open>Disconnect\<close>

text \<open>
  C4, as the code has it. \<^verbatim>\<open>disconnect\<close> of an id that is not registered returns the
  state as it is and makes no transport call. For any id, the id is not registered
  afterwards, and a second \<^verbatim>\<open>disconnect\<close> of it changes nothing. The id of a
  registered connection is afterwards absent from the set of the connection's own user and
  from the set of every task the connection has subscribed to, and neither of these is
  left as an empty set. In a state whose indices are consistent with the registry, the id
  is afterwards in no set of \<^verbatim>\<open>user_connections\<close> and in no set of
  \<^verbatim>\<open>task_subscribers\<close>, and a key whose set held it either is removed (the set was
  that id alone) or keeps a non-empty set without it. The function has no exceptional
  result: the exception of the close is caught.
\<close>

theorem disconnect_idempotent_total:
  "(map_of (connections m) cid = None \<longrightarrow> disconnect tr m cid = (m, []))
   \<and> map_of (connections (fst (disconnect tr m cid))) cid = None
   \<and> disconnect tr' (fst (disconnect tr m cid)) cid = (fst (disconnect tr m cid), [])
   \<and> (map_of (connections m) cid = Some c \<and> user_id c = Some u \<and> u \<noteq> [] \<longrightarrow>
        cid \<notin> lookup_set (user_connections (fst (disconnect tr m cid))) u
        \<and> map_of (user_connections (fst (disconnect tr m cid))) u \<noteq> Some [])
   \<and> (map_of (connections m) cid = Some c \<and> t \<in> set (subscribed_tasks c) \<longrightarrow>
        cid \<notin> lookup_set (task_subscribers (fst (disconnect tr m cid))) t
        \<and> map_of (task_subscribers (fst (disconnect tr m cid))) t \<noteq> Some [])
   \<and> (index_consistent m \<longrightarrow>
        cid \<notin> lookup_set (user_connections (fst (disconnect tr m cid))) u
        \<and> cid \<notin> lookup_set (task_subscribers (fst (disconnect tr m cid))) t
        \<and> (\<forall>s. map_of (user_connections m) u = Some s \<and> cid \<in> set s \<longrightarrow>
              (case map_of (user_connections (fst (disconnect tr m cid))) u of
                 None \<Rightarrow> set s = {cid}
               | Some s' \<Rightarrow> s' \<noteq> [] \<and> set s' = set s - {cid}))
        \<and> (\<forall>s. map_of (task_subscribers m) t = Some s \<and> cid \<in> set s \<longrightarrow>
              (case map_of (task_subscribers (fst (disconnect tr m cid))) t of
                 None \<Rightarrow> set s = {cid}
               | Some s' \<Rightarrow> s' \<noteq> [] \<and> set s' = set s - {cid})))"
proof -
  have gone: "map_of (connections (fst (disconnect tr m cid))) cid = None"
    by (simp add: disconnect_registry)
  have unknown: "disconnect tr m cid = (m, [])" if "map_of (connections m) cid = None"
    using that by (rule disconnect_unknown)
  have again: "disconnect tr' (fst (disconnect tr m cid)) cid = (fst (disconnect tr m cid), [])"
    using gone by (rule disconnect_unknown)
  have own_user: "cid \<notin> lookup_set (user_connections (fst (disconnect tr m cid))) u
        \<and> map_of (user_connections (fst (disconnect tr m cid))) u \<noteq> Some []"
    if "map_of (connections m) cid = Some c \<and> user_id c = Some u \<and> u \<noteq> []"
    using that disconnect_own_user [of m cid c u tr] by blast
  have own_task: "cid \<notin> lookup_set (task_subscribers (fst (disconnect tr m cid))) t
        \<and> map_of (task_subscribers (fst (disconnect tr m cid))) t \<noteq> Some []"
    if "map_of (connections m) cid = Some c \<and> t \<in> set (subscribed_tasks c)"
    using that disconnect_own_task [of m cid c t tr] by blast
  have consistent: "cid \<notin> lookup_set (user_connections (fst (disconnect tr m cid))) u
        \<and> cid \<notin> lookup_set (task_subscribers (fst (disconnect tr m cid))) t
        \<and> (\<forall>s. map_of (user_connections m) u = Some s \<and> cid \<in> set s \<longrightarrow>
              (case map_of (user_connections (fst (disconnect tr m cid))) u of
                 None \<Rightarrow> set s = {cid}
               | Some s' \<Rightarrow> s' \<noteq> [] \<and> set s' = set s - {cid}))
        \<and> (\<forall>s. map_of (task_subscribers m) t = Some s \<and> cid \<in> set s \<longrightarrow>
              (case map_of (task_subscribers (fst (disconnect tr m cid))) t of
                 None \<Rightarrow> set s = {cid}
               | Some s' \<Rightarrow> s' \<noteq> [] \<and> set s' = set s - {cid}))"
    if ic: "index_consistent m"
  proof (intro conjI allI impI)
    have ic': "index_consistent (fst (disconnect tr m cid))"
      using ic by (rule index_consistent_disconnect)
    show "cid \<notin> lookup_set (user_connections (fst (disconnect tr m cid))) u"
      using ic' gone unfolding index_consistent_def by auto
    show "cid \<notin> lookup_set (task_subscribers (fst (disconnect tr m cid))) t"
      using ic' gone unfolding index_consistent_def by auto
  next
    fix s
    assume s: "map_of (user_connections m) u = Some s \<and> cid \<in> set s"
    then have "cid \<in> lookup_set (user_connections m) u"
      by (simp add: lookup_set_def)
    then obtain c0 where c: "map_of (connections m) cid = Some c0" "user_id c0 = Some u" "u \<noteq> []"
      using ic unfolding index_consistent_def by blast
    show "case map_of (user_connections (fst (disconnect tr m cid))) u of
            None \<Rightarrow> set s = {cid}
          | Some s' \<Rightarrow> s' \<noteq> [] \<and> set s' = set s - {cid}"
      using c s by (auto simp: disconnect_users_key set_discard_empty_iff)
  next
    fix s
    assume s: "map_of (task_subscribers m) t = Some s \<and> cid \<in> set s"
    then have "cid \<in> lookup_set (task_subscribers m) t"
      by (simp add: lookup_set_def)
    then obtain c0 where c: "map_of (connections m) cid = Some c0" "t \<in> set (subscribed_tasks c0)"
      using ic unfolding index_consistent_def by blast
    show "case map_of (task_subscribers (fst (disconnect tr m cid))) t of
            None \<Rightarrow> set s = {cid}
          | Some s' \<Rightarrow> s' \<noteq> [] \<and> set s' = set s - {cid}"
      using c s by (auto simp: disconnect_tasks_key set_discard_empty_iff)
  qed
  show ?thesis
    using gone unknown again own_user own_task consistent by blast
qed

lemma disconnect_b_eval:
  "fst (disconnect tr_ok m_three ''b'') =
     \<lparr>connections =
        [(''a'', \<lparr>websocket = 1, connection_id = ''a'', user_id = Some ''u1'', session_id = None,
                 connected_at = 0, last_heartbeat = 1, subscribed_tasks = [1], is_active = True\<rparr>),
         (''c'', \<lparr>websocket = 3, connection_id = ''c'', user_id = None, session_id = None,
                 connected_at = 0, last_heartbeat = 0, subscribed_tasks = [], is_active = True\<rparr>)],
      user_connections = [(''u1'', [''a''])],
      task_subscribers = [(1, [''a''])]\<rparr>"
  by code_simp

theorem disconnect_idempotent_total_witness:
  "map_of (connections m_three) ''zz'' = None \<and> disconnect tr_ok m_three ''zz'' = (m_three, [])
   \<and> map_of (connections m_three) ''b'' = Some conn_b
   \<and> user_id conn_b = Some ''u1'' \<and> ''u1'' \<noteq> [] \<and> 1 \<in> set (subscribed_tasks conn_b)
   \<and> index_consistent m_three
   \<and> map_of (user_connections m_three) ''u1'' = Some [''a'', ''b''] \<and> ''b'' \<in> set [''a'', ''b'']
   \<and> map_of (task_subscribers m_three) 1 = Some [''a'', ''b'']
   \<and> map_of (connections (fst (disconnect tr_ok m_three ''b''))) ''b'' = None
   \<and> ''b'' \<notin> lookup_set (user_connections (fst (disconnect tr_ok m_three ''b''))) ''u1''
   \<and> ''b'' \<notin> lookup_set (task_subscribers (fst (disconnect tr_ok m_three ''b''))) 1
   \<and> map_of (user_connections (fst (disconnect tr_ok m_three ''b''))) ''u1'' = Some [''a'']
   \<and> map_of (task_subscribers (fst (disconnect tr_ok m_three ''b''))) 1 = Some [''a'']
   \<and> disconnect tr_ok (fst (disconnect tr_ok m_three ''b'')) ''b''
       = (fst (disconnect tr_ok m_three ''b''), [])"
proof -
  have none: "map_of (connections m_three) ''zz'' = None"
    by (simp add: m_three_eval)
  have reg: "map_of (connections m_three) ''b'' = Some conn_b" "user_id conn_b = Some ''u1''"
    "1 \<in> set (subscribed_tasks conn_b)"
    by (simp_all add: m_three_eval conn_b_def)
  have idx: "map_of (user_connections m_three) ''u1'' = Some [''a'', ''b'']"
    "map_of (task_subscribers m_three) 1 = Some [''a'', ''b'']"
    by (simp_all add: m_three_eval)
  have after: "map_of (user_connections (fst (disconnect tr_ok m_three ''b''))) ''u1'' = Some [''a'']"
    "map_of (task_subscribers (fst (disconnect tr_ok m_three ''b''))) 1 = Some [''a'']"
    by (simp_all add: disconnect_b_eval)
  note z = disconnect_idempotent_total [where m = m_three and cid = "''zz''" and tr = tr_ok
      and tr' = tr_ok and c = conn_b and u = "''u1''" and t = 1]
  note b = disconnect_idempotent_total [where m = m_three and cid = "''b''" and tr = tr_ok
      and tr' = tr_ok and c = conn_b and u = "''u1''" and t = 1]
  have 1: "disconnect tr_ok m_three ''zz'' = (m_three, [])"
    using z none by blast
  have 2: "map_of (connections (fst (disconnect tr_ok m_three ''b''))) ''b'' = None"
    "disconnect tr_ok (fst (disconnect tr_ok m_three ''b'')) ''b''
       = (fst (disconnect tr_ok m_three ''b''), [])"
    using b by blast+
  have 3: "''b'' \<notin> lookup_set (user_connections (fst (disconnect tr_ok m_three ''b''))) ''u1''"
    "''b'' \<notin> lookup_set (task_subscribers (fst (disconnect tr_ok m_three ''b''))) 1"
    using b reg by auto
  show ?thesis
    using none reg idx after 1 2 3 m_three_consistent by simp
qed

text \<open>
  C4 as stated fails in a state in which \<^verbatim>\<open>connect\<close> was given a registered id:
  \<^verbatim>\<open>a\<close> is registered (for user \<^verbatim>\<open>u2\<close>), and after its disconnect the set of user
  \<^verbatim>\<open>u1\<close> still holds \<^verbatim>\<open>a\<close>.
\<close>

theorem disconnect_idempotent_total_counterexample:
  "is_live m_same_id ''a''
   \<and> map_of (connections (fst (disconnect tr_ok m_same_id ''a''))) ''a'' = None
   \<and> map_of (user_connections (fst (disconnect tr_ok m_same_id ''a''))) ''u1'' = Some [''a'']"
  by code_simp

subsection \<open>Subscribe and unsubscribe\<close>

text \<open>
  C5, as the code has it, on \<^verbatim>\<open>_handle_subscribe_task\<close> and
  \<^verbatim>\<open>_handle_unsubscribe_task\<close>. Subscribing
  again, from the state and the connection object the first subscription left, returns the
  same state and the same response. In a state whose indices are consistent with the
  registry, unsubscribing a connection from a task it has not subscribed to returns the
  state unchanged. After a successful unsubscribe the key of the task is removed when its
  set held no other id, and otherwise keeps the set without the id, which is not empty.
\<close>

theorem subscribe_unsubscribe_idempotent:
  "(handle_subscribe_task rt m cid c msg = Inr res
      \<and> map_of (connections (fst res)) cid = Some c1 \<longrightarrow>
      handle_subscribe_task rt (fst res) cid c1 msg = Inr res)
   \<and> (index_consistent m \<and> map_of (connections m) cid = Some c
        \<and> truthy (dict_get (msg_data msg) ''task_id'')
        \<and> parse_task_id rt (dict_get (msg_data msg) ''task_id'') = Inr t
        \<and> t \<notin> set (subscribed_tasks c) \<longrightarrow>
      (\<exists>r. handle_unsubscribe_task rt m cid c msg = Inr (m, r) \<and> resp_success r))
   \<and> (handle_unsubscribe_task rt m cid c msg = Inr res \<and> resp_success (snd res)
        \<and> parse_task_id rt (dict_get (msg_data msg) ''task_id'') = Inr t \<longrightarrow>
      map_of (task_subscribers (fst res)) t =
        (case map_of (task_subscribers m) t of
           None \<Rightarrow> None
         | Some s \<Rightarrow> if set s \<subseteq> {connection_id c} then None
                     else Some (set_discard (connection_id c) s))
      \<and> map_of (task_subscribers (fst res)) t \<noteq> Some [])"
proof (intro conjI impI)
  assume "handle_subscribe_task rt m cid c msg = Inr res
      \<and> map_of (connections (fst res)) cid = Some c1"
  then show "handle_subscribe_task rt (fst res) cid c1 msg = Inr res"
    using handle_subscribe_task_again [of rt m cid c msg "fst res" "snd res" c1] by simp
next
  assume "index_consistent m \<and> map_of (connections m) cid = Some c
        \<and> truthy (dict_get (msg_data msg) ''task_id'')
        \<and> parse_task_id rt (dict_get (msg_data msg) ''task_id'') = Inr t
        \<and> t \<notin> set (subscribed_tasks c)"
  then show "\<exists>r. handle_unsubscribe_task rt m cid c msg = Inr (m, r) \<and> resp_success r"
    using handle_unsubscribe_task_not_subscribed [of m cid c msg rt t]
    by (simp add: success_response_def)
next
  assume a: "handle_unsubscribe_task rt m cid c msg = Inr res \<and> resp_success (snd res)
        \<and> parse_task_id rt (dict_get (msg_data msg) ''task_id'') = Inr t"
  then show key: "map_of (task_subscribers (fst res)) t =
        (case map_of (task_subscribers m) t of
           None \<Rightarrow> None
         | Some s \<Rightarrow> if set s \<subseteq> {connection_id c} then None
                     else Some (set_discard (connection_id c) s))"
    using handle_unsubscribe_task_prunes [of rt m cid c msg "fst res" "snd res" t] by simp
  show "map_of (task_subscribers (fst res)) t \<noteq> Some []"
    unfolding key by (simp add: set_discard_empty_iff split: option.splits)
qed

lemma after_subscribe2_eval:
  "handle_subscribe_task rt_demo m_three ''a'' conn_a msg_subscribe2 = Inr after_subscribe2"
  "map_of (connections (fst after_subscribe2)) ''a'' = Some (subscribe_to_task conn_a 2)"
  by code_simp+

lemma after_unsubscribe1_eval:
  "handle_unsubscribe_task rt_demo m_without_b ''a'' conn_a msg_unsubscribe1
     = Inr after_unsubscribe1"
  "resp_success (snd after_unsubscribe1)"
  "map_of (task_subscribers m_without_b) 1 = Some [''a'']"
  by code_simp+

lemma parse_demo:
  "parse_task_id rt_demo (dict_get (msg_data msg_unsubscribe1) ''task_id'') = Inr 1"
  "truthy (dict_get (msg_data msg_unsubscribe1) ''task_id'')"
  by code_simp+

theorem subscribe_unsubscribe_idempotent_witness:
  "handle_subscribe_task rt_demo m_three ''a'' conn_a msg_subscribe2 = Inr after_subscribe2
   \<and> map_of (connections (fst after_subscribe2)) ''a'' = Some (subscribe_to_task conn_a 2)
   \<and> handle_subscribe_task rt_demo (fst after_subscribe2) ''a'' (subscribe_to_task conn_a 2)
        msg_subscribe2 = Inr after_subscribe2
   \<and> index_consistent m_three \<and> map_of (connections m_three) ''c'' = Some conn_c
   \<and> truthy (dict_get (msg_data msg_unsubscribe1) ''task_id'')
   \<and> parse_task_id rt_demo (dict_get (msg_data msg_unsubscribe1) ''task_id'') = Inr 1
   \<and> 1 \<notin> set (subscribed_tasks conn_c)
   \<and> fst (projr (handle_unsubscribe_task rt_demo m_three ''c'' conn_c msg_unsubscribe1)) = m_three
   \<and> handle_unsubscribe_task rt_demo m_without_b ''a'' conn_a msg_unsubscribe1
        = Inr after_unsubscribe1
   \<and> resp_success (snd after_unsubscribe1)
   \<and> map_of (task_subscribers m_without_b) 1 = Some [''a'']
   \<and> map_of (task_subscribers (fst after_unsubscribe1)) 1 = None"
proof -
  have c: "map_of (connections m_three) ''c'' = Some conn_c" "1 \<notin> set (subscribed_tasks conn_c)"
    "connection_id conn_a = ''a''"
    by (simp_all add: m_three_eval conn_c_def conn_a_def)
  note sub = subscribe_unsubscribe_idempotent
      [of rt_demo m_three "''a''" conn_a msg_subscribe2 after_subscribe2
        "subscribe_to_task conn_a 2" 1]
  note unsub = subscribe_unsubscribe_idempotent
      [of rt_demo m_three "''c''" conn_c msg_unsubscribe1 after_unsubscribe1 conn_c 1]
  note prune = subscribe_unsubscribe_idempotent
      [of rt_demo m_without_b "''a''" conn_a msg_unsubscribe1 after_unsubscribe1 conn_a 1]
  have 1: "handle_subscribe_task rt_demo (fst after_subscribe2) ''a''
             (subscribe_to_task conn_a 2) msg_subscribe2 = Inr after_subscribe2"
    using sub after_subscribe2_eval by blast
  have "\<exists>r. handle_unsubscribe_task rt_demo m_three ''c'' conn_c msg_unsubscribe1
              = Inr (m_three, r) \<and> resp_success r"
    using unsub m_three_consistent c parse_demo by blast
  then have 2: "fst (projr (handle_unsubscribe_task rt_demo m_three ''c'' conn_c
                  msg_unsubscribe1)) = m_three"
    by auto
  have "map_of (task_subscribers (fst after_unsubscribe1)) 1 =
        (case map_of (task_subscribers m_without_b) 1 of
           None \<Rightarrow> None
         | Some s \<Rightarrow> if set s \<subseteq> {connection_id conn_a} then None
                     else Some (set_discard (connection_id conn_a) s))"
    using prune after_unsubscribe1_eval parse_demo by blast
  then have 3: "map_of (task_subscribers (fst after_unsubscribe1)) 1 = None"
    using after_unsubscribe1_eval(3) c(3) by simp
  show ?thesis
    using after_subscribe2_eval after_unsubscribe1_eval parse_demo c m_three_consistent 1 2 3
    by simp
qed

text \<open>
  C5 as stated fails in a state in which \<^verbatim>\<open>connect\<close> was given a registered id:
  \<^verbatim>\<open>a\<close> connected, subscribed to task 1 and connected again. The registered
  connection has not subscribed to task 1, and its unsubscribe from task 1 still removes
  the entry of task 1 from \<^verbatim>\<open>task_subscribers\<close>: the state changes.
\<close>

theorem subscribe_unsubscribe_idempotent_counterexample:
  "map_of (connections m_reconnected) ''a'' = Some conn_a_again
   \<and> 1 \<notin> set (subscribed_tasks conn_a_again)
   \<and> parse_task_id rt_demo (dict_get (msg_data msg_unsubscribe1) ''task_id'') = Inr 1
   \<and> map_of (task_subscribers m_reconnected) 1 = Some [''a'']
   \<and> \<not> isl (handle_unsubscribe_task rt_demo m_reconnected ''a'' conn_a_again msg_unsubscribe1)
   \<and> fst (projr (handle_unsubscribe_task rt_demo m_reconnected ''a'' conn_a_again
                    msg_unsubscribe1)) \<noteq> m_reconnected
   \<and> map_of (task_subscribers (fst (projr (handle_unsubscribe_task rt_demo m_reconnected ''a''
                    conn_a_again msg_unsubscribe1)))) 1 = None"
  by code_simp

subsection \<open>Closing the transport\<close>

text \<open>
  C8, as the code has it. \<^verbatim>\<open>disconnect\<close> of a registered connection calls the close of
  its transport once when the connection is marked active and not at all when it is
  marked inactive; it calls nothing for an id that is not registered. In both cases, and
  also when the close raises, the connection is removed from the registry, from the set
  of its own user and from the set of every task it has subscribed to, and, in a state
  whose indices are consistent with the registry, from every set of both indices. No
  other operation calls close: not connect, not handle_message, and not the send paths,
  whose clean-up disconnects connections that the failed send has just marked inactive.
\<close>

theorem close_on_disconnect:
  "(map_of (connections m) cid = Some c \<longrightarrow>
      snd (disconnect tr m cid)
        = (if is_active c then [Close cid (\<not> close_raises tr (websocket c))] else [])
      \<and> map_of (connections (fst (disconnect tr m cid))) cid = None
      \<and> (user_id c = Some u \<and> u \<noteq> [] \<longrightarrow>
           cid \<notin> lookup_set (user_connections (fst (disconnect tr m cid))) u)
      \<and> (t \<in> set (subscribed_tasks c) \<longrightarrow>
           cid \<notin> lookup_set (task_subscribers (fst (disconnect tr m cid))) t)
      \<and> (index_consistent m \<longrightarrow>
           cid \<notin> lookup_set (user_connections (fst (disconnect tr m cid))) u
           \<and> cid \<notin> lookup_set (task_subscribers (fst (disconnect tr m cid))) t))
   \<and> (map_of (connections m) cid = None \<longrightarrow> snd (disconnect tr m cid) = [])
   \<and> ((\<forall>cid'. op \<noteq> Disconnect cid') \<longrightarrow> closed (snd (step rt tr op m)) = [])"
proof (intro conjI impI)
  assume "map_of (connections m) cid = Some c"
  then show "snd (disconnect tr m cid)
        = (if is_active c then [Close cid (\<not> close_raises tr (websocket c))] else [])"
    by (simp add: disconnect_log)
next
  show "map_of (connections (fst (disconnect tr m cid))) cid = None"
    by (simp add: disconnect_registry)
next
  assume "map_of (connections m) cid = Some c" and "user_id c = Some u \<and> u \<noteq> []"
  then show "cid \<notin> lookup_set (user_connections (fst (disconnect tr m cid))) u"
    using disconnect_own_user(1) [of m cid c u tr] by blast
next
  assume "map_of (connections m) cid = Some c" and "t \<in> set (subscribed_tasks c)"
  then show "cid \<notin> lookup_set (task_subscribers (fst (disconnect tr m cid))) t"
    using disconnect_own_task(1) [of m cid c t tr] by blast
next
  assume ic: "index_consistent m"
  have ic': "index_consistent (fst (disconnect tr m cid))"
    using ic by (rule index_consistent_disconnect)
  have gone: "map_of (connections (fst (disconnect tr m cid))) cid = None"
    by (simp add: disconnect_registry)
  show "cid \<notin> lookup_set (user_connections (fst (disconnect tr m cid))) u"
    using ic' gone unfolding index_consistent_def by auto
  show "cid \<notin> lookup_set (task_subscribers (fst (disconnect tr m cid))) t"
    using ic' gone unfolding index_consistent_def by auto
next
  assume "map_of (connections m) cid = None"
  then show "snd (disconnect tr m cid) = []"
    by (simp add: disconnect_unknown)
next
  assume "\<forall>cid'. op \<noteq> Disconnect cid'"
  then show "closed (snd (step rt tr op m)) = []"
    by (rule step_closed)
qed

theorem close_on_disconnect_witness:
  "map_of (connections m_three) ''a'' = Some conn_a \<and> is_active conn_a
   \<and> close_raises tr_close_fails (websocket conn_a)
   \<and> user_id conn_a = Some ''u1'' \<and> ''u1'' \<noteq> [] \<and> 1 \<in> set (subscribed_tasks conn_a)
   \<and> snd (disconnect tr_close_fails m_three ''a'') = [Close ''a'' False]
   \<and> map_of (connections (fst (disconnect tr_close_fails m_three ''a''))) ''a'' = None
   \<and> index_consistent m_three
   \<and> ''a'' \<notin> lookup_set (user_connections (fst (disconnect tr_close_fails m_three ''a''))) ''u1''
   \<and> ''a'' \<notin> lookup_set (task_subscribers (fst (disconnect tr_close_fails m_three ''a''))) 1
   \<and> map_of (connections m_three) ''zz'' = None
   \<and> snd (disconnect tr_close_fails m_three ''zz'') = []
   \<and> (\<forall>cid'. Broadcast ev_status \<noteq> Disconnect cid')
   \<and> closed (snd (step rt_demo (tr_send_fails 2) (Broadcast ev_status) m_three)) = []"
proof -
  have reg: "map_of (connections m_three) ''a'' = Some conn_a" "is_active conn_a"
    "close_raises tr_close_fails (websocket conn_a)"
    "map_of (connections m_three) ''zz'' = None"
    "user_id conn_a = Some ''u1''" "1 \<in> set (subscribed_tasks conn_a)"
    by (simp_all add: m_three_eval conn_a_def tr_close_fails_def)
  note a = close_on_disconnect [where m = m_three and cid = "''a''" and c = conn_a
      and tr = tr_close_fails and u = "''u1''" and t = 1 and op = "Broadcast ev_status"
      and rt = rt_demo]
  note z = close_on_disconnect [where m = m_three and cid = "''zz''" and c = conn_a
      and tr = tr_close_fails and u = "''u1''" and t = 1 and op = "Broadcast ev_status"
      and rt = rt_demo]
  note b = close_on_disconnect [where m = m_three and cid = "''a''" and c = conn_a
      and tr = "tr_send_fails 2" and u = "''u1''" and t = 1 and op = "Broadcast ev_status"
      and rt = rt_demo]
  have 1: "snd (disconnect tr_close_fails m_three ''a'') = [Close ''a'' False]"
    "map_of (connections (fst (disconnect tr_close_fails m_three ''a''))) ''a'' = None"
    using a reg by simp_all
  have 2: "''a'' \<notin> lookup_set (user_connections (fst (disconnect tr_close_fails m_three ''a''))) ''u1''"
    "''a'' \<notin> lookup_set (task_subscribers (fst (disconnect tr_close_fails m_three ''a''))) 1"
    using a reg m_three_consistent by blast+
  have 3: "snd (disconnect tr_close_fails m_three ''zz'') = []"
    using z reg by blast
  have 4: "closed (snd (step rt_demo (tr_send_fails 2) (Broadcast ev_status) m_three)) = []"
    using b by blast
  show ?thesis
    using reg 1 2 3 4 m_three_consistent by simp
qed

text \<open>
  C8 as stated fails on two counts. A connection is registered, the send of a later
  broadcast to it fails, and the broadcast removes it from the registry without any close
  of its transport in the whole run. And in a state in which \<^verbatim>\<open>connect\<close> was given a
  registered id, a disconnect whose close raises removes \<^verbatim>\<open>a\<close> from the registry and
  leaves it in the set of user \<^verbatim>\<open>u1\<close>.
\<close>

theorem close_on_disconnect_counterexample:
  "Accept ''a'' \<in> set (snd (run rt_demo ops_failed_send WebSocketManager_init))
   \<and> map_of (connections (fst (run rt_demo ops_failed_send WebSocketManager_init))) ''a'' = None
   \<and> closed (snd (run rt_demo ops_failed_send WebSocketManager_init)) = []
   \<and> is_live m_same_id ''a''
   \<and> snd (disconnect tr_close_fails m_same_id ''a'') = [Close ''a'' False]
   \<and> map_of (connections (fst (disconnect tr_close_fails m_same_id ''a''))) ''a'' = None
   \<and> ''a'' \<in> lookup_set (user_connections (fst (disconnect tr_close_fails m_same_id ''a''))) ''u1''"
  by code_simp

subsection \<open>Handling a message\<close>

lemma WebSocketMessage_init_request_id:
  "WebSocketMessage_init raw = Some msg \<Longrightarrow>
     validate_request_id (map_of raw ''request_id'') = Some (msg_request_id msg)"
  by (auto simp: WebSocketMessage_init_def split: option.splits json.splits)

lemma handle_message_unknown:
  "map_of (connections m) cid = None \<Longrightarrow>
     handle_message rt m cid raw now = Inr (m, error_response ''error'' ''Connection not found'' None)"
  by (simp add: handle_message_def)

lemma handle_message_malformed:
  assumes "map_of (connections m) cid = Some c" and "WebSocketMessage_init raw = None"
    and "validate_request_id (map_of raw ''request_id'') = Some rid"
  shows "handle_message rt m cid raw now =
           Inr (m, error_response ''error'' ''Invalid message format'' rid)"
  using assms by (simp add: handle_message_def error_response_raw_def)

lemma dispatch_last_heartbeat:
  assumes "dispatch rt m cid c msg now = Inr (m', r)"
    and "map_of (connections m) cid = Some c" and "last_heartbeat c = now"
  shows "\<exists>c'. map_of (connections m') cid = Some c' \<and> last_heartbeat c' = now"
proof -
  from assms(1) consider
      (sub) "handle_subscribe_task rt m cid c msg = Inr (m', r)"
    | (unsub) "handle_unsubscribe_task rt m cid c msg = Inr (m', r)"
    | (beat) "m' = store cid (update_heartbeat c now) m"
    | (same) "m' = m"
    by (auto simp: dispatch_def handle_heartbeat_def handle_get_status_def split: if_splits)
  then show ?thesis
  proof cases
    case sub
    then show ?thesis using handle_subscribe_task_Inr(2) [OF sub] assms(2,3)
      by (auto simp: subscribe_to_task_def)
  next
    case unsub
    then show ?thesis using handle_unsubscribe_task_Inr(2) [OF unsub] assms(2,3)
      by (auto simp: unsubscribe_from_task_def)
  next
    case beat
    then show ?thesis by (simp add: update_heartbeat_def)
  next
    case same
    then show ?thesis using assms(2,3) by simp
  qed
qed

text \<open>
  What \<^verbatim>\<open>handle_message\<close> does for a registered connection: a well-formed message
  is answered, the answer carries the message's correlation id, and the connection's
  \<^verbatim>\<open>last_heartbeat\<close> is the clock reading of the call.
\<close>

lemma handle_message_registered:
  assumes "map_of (connections m) cid = Some c" and "WebSocketMessage_init raw = Some msg"
  shows "\<exists>m' r c'. handle_message rt m cid raw now = Inr (m', r)
           \<and> resp_request_id r = msg_request_id msg
           \<and> map_of (connections m') cid = Some c' \<and> last_heartbeat c' = now"
proof -
  let ?c1 = "update_heartbeat c now"
  let ?m1 = "store cid ?c1 m"
  have reg: "map_of (connections ?m1) cid = Some ?c1" "last_heartbeat ?c1 = now"
    by (simp_all add: update_heartbeat_def)
  show ?thesis
  proof (cases "dispatch rt ?m1 cid ?c1 msg now")
    case (Inl e)
    then have "handle_message rt m cid raw now =
        Inr (?m1, error_response (msg_type msg) (''Internal error: '' @ exn_str e)
                    (msg_request_id msg))"
      using assms by (simp add: handle_message_def Let_def)
    then show ?thesis using reg by (simp add: error_response_def)
  next
    case (Inr res)
    then have d: "dispatch rt ?m1 cid ?c1 msg now = Inr (fst res, snd res)"
      by simp
    have h: "handle_message rt m cid raw now = Inr (fst res, snd res)"
      using assms Inr by (simp add: handle_message_def Let_def)
    show ?thesis
      using h dispatch_request_id [OF d] dispatch_last_heartbeat [OF d reg] by blast
  qed
qed

text \<open>
  C6 at the code: a message with correlation id \<^verbatim>\<open>r1\<close> sent on a connection id that
  is not registered is answered with the error response "Connection not found", whose
  correlation id is None. The state is unchanged.
\<close>

theorem handle_message_unknown_connection_drops_request_id:
  "map_of raw_heartbeat ''request_id'' = Some (JStr ''r1'')
   \<and> handle_message rt_demo m_three ''zz'' raw_heartbeat 5 =
       Inr (m_three, \<lparr>resp_type = ''error'', resp_data = [], resp_success = False,
                      resp_error = Some ''Connection not found'', resp_request_id = None\<rparr>)"
  by code_simp

text \<open>
  The sibling branch, for a malformed message on a registered connection, does echo the
  correlation id.
\<close>

lemma handle_message_malformed_example:
  "handle_message rt_demo m_three ''a'' raw_no_type 5 =
     Inr (m_three, \<lparr>resp_type = ''error'', resp_data = [], resp_success = False,
                    resp_error = Some ''Invalid message format'', resp_request_id = Some ''r4''\<rparr>)"
  by code_simp

text \<open>
  A malformed message whose raw correlation id is not a string: the error response cannot
  be built and the exception leaves \<^verbatim>\<open>handle_message\<close>.
\<close>

lemma handle_message_raises_example:
  "handle_message rt_demo m_three ''a'' raw_bad_request_id 5 = Inl ValidationError"
  by code_simp

end
